theory Spec2Isabelle
  imports Complex_Main "HOL-Library.Sublist"
begin

section \<open>Audio segments at millisecond granularity\<close>

text \<open>
  The pipeline only ever asks the audio library for three things: the length of a segment
  in milliseconds, concatenation, and cutting a segment at a millisecond offset. A segment
  is therefore modelled as the sequence of its one-millisecond samples, silence being the
  sample 0. Frame rates, channels and sample widths, which \<open>_normalize\<close> rewrites, do not
  change that sequence.
\<close>

type_synonym AudioSegment = "int list"

definition silent :: "int \<Rightarrow> AudioSegment" where
  "silent duration = replicate (nat duration) 0"

definition len :: "AudioSegment \<Rightarrow> int" where
  "len seg = int (length seg)"

definition normalize_seg :: "AudioSegment \<Rightarrow> AudioSegment" where
  "normalize_seg seg = seg"


section \<open>Cues\<close>

text \<open>
  A cue is a Python dictionary. The builder of the final audio reads its keys with
  \<open>cue.get(key, default)\<close>, the snapping pass and the slideshow read \<open>c["start"]\<close> and
  \<open>c["end"]\<close> and raise \<open>KeyError\<close> on a missing key, so every key is optional here.
\<close>

record cue =
  cue_start :: "int option"
  cue_end :: "int option"
  cue_text :: "string option"
  cue_lang :: "string option"
  cue_repeat :: "int option"
  cue_is_primary :: "bool option"
  cue_tags :: "string list option"

datatype py_error = KeyError

type_synonym tts = "string \<Rightarrow> string \<Rightarrow> AudioSegment"

section \<open>audio_utils.py: cues to final audio\<close>

text \<open>\<open>start_ms = int(cue.get("start", 0))\<close>\<close>

definition start_ms_of :: "cue \<Rightarrow> int" where
  "start_ms_of c = (case cue_start c of None \<Rightarrow> 0 | Some s \<Rightarrow> s)"

text \<open>\<open>end_ms = int(cue.get("end", start_ms))\<close>\<close>

definition end_ms_of :: "cue \<Rightarrow> int" where
  "end_ms_of c = (case cue_end c of None \<Rightarrow> start_ms_of c | Some e \<Rightarrow> e)"

text \<open>\<open>target_ms = max(0, end_ms - start_ms)\<close>\<close>

definition target_ms_of :: "cue \<Rightarrow> int" where
  "target_ms_of c = max 0 (end_ms_of c - start_ms_of c)"

text \<open>\<open>text = str(cue.get("text", "") or "")\<close> and \<open>lang = str(cue.get("lang", "en") or "en")\<close>\<close>

definition text_of :: "cue \<Rightarrow> string" where
  "text_of c = (case cue_text c of None \<Rightarrow> [] | Some s \<Rightarrow> s)"

definition lang_of :: "cue \<Rightarrow> string" where
  "lang_of c = (case cue_lang c of None \<Rightarrow> ''en'' | Some s \<Rightarrow> if s = [] then ''en'' else s)"

text \<open>\<open>repeat = max(1, int(cue.get("repeat", 1)))\<close>\<close>

definition repeat_of :: "cue \<Rightarrow> int" where
  "repeat_of c = max 1 (case cue_repeat c of None \<Rightarrow> 1 | Some r \<Rightarrow> r)"

text \<open>
  The inner loop \<open>for r in range(repeat): if r > 0: built += gap; built += seg_one\<close>,
  started from the empty segment.
\<close>

definition repeat_with_gap :: "AudioSegment \<Rightarrow> AudioSegment \<Rightarrow> int \<Rightarrow> AudioSegment" where
  "repeat_with_gap seg_one gap repeat =
     foldl (\<lambda>built r. (if r > 0 then built @ gap else built) @ seg_one) (silent 0) [0..<nat repeat]"

text \<open>The padding and truncation of one cue's audio to \<open>target_ms\<close>.\<close>

definition fit_to_target :: "AudioSegment \<Rightarrow> int \<Rightarrow> AudioSegment" where
  "fit_to_target built target_ms =
     (let built_len = len built in
      if target_ms > 0 then
        (if built_len < target_ms then built @ silent (target_ms - built_len)
         else if built_len > target_ms then take (nat target_ms) built
         else built)
      else built)"

text \<open>The value of \<open>built\<close> that the loop body appends to the output for one cue.\<close>

definition built_of_cue :: "tts \<Rightarrow> int \<Rightarrow> cue \<Rightarrow> AudioSegment" where
  "built_of_cue safe_tts_to_segment pause_rep_ms c =
     (let seg_one = safe_tts_to_segment (text_of c) (lang_of c);
          gap = normalize_seg (silent (max 0 pause_rep_ms));
          built = repeat_with_gap seg_one gap (repeat_of c)
      in fit_to_target built (target_ms_of c))"

text \<open>
  One iteration of the outer loop: silence up to the cue's nominal start when the output is
  shorter, then the cue's audio.
\<close>

definition append_cue :: "tts \<Rightarrow> int \<Rightarrow> AudioSegment \<Rightarrow> cue \<Rightarrow> AudioSegment" where
  "append_cue safe_tts_to_segment pause_rep_ms out c =
     (let pad_needed = max 0 (start_ms_of c - len out);
          out1 = (if pad_needed \<noteq> 0 then out @ silent pad_needed else out)
      in out1 @ built_of_cue safe_tts_to_segment pause_rep_ms c)"

definition build_audio_snapped_to_cues :: "tts \<Rightarrow> cue list \<Rightarrow> int \<Rightarrow> AudioSegment" where
  "build_audio_snapped_to_cues safe_tts_to_segment cues pause_rep_ms =
     normalize_seg (foldl (append_cue safe_tts_to_segment pause_rep_ms) (silent 0) cues)"


section \<open>main.py: the draft timeline\<close>











section \<open>main.py: snapping to the subtitle grid\<close>

datatype tie_rule = HalfUp | HalfDown | HalfEven

text \<open>
  Modelled from the spec: \<open>subtitles.round_to_ass_grid\<close>, whose module is not among the
  sources. The spec has it round a millisecond value to the nearest unit of a fixed
  sub-second grid (10 ms for the centisecond grid of ASS subtitles). The spec does not say
  which way a value exactly between two grid points goes, so the rule is a parameter.
\<close>

definition round_to_grid :: "tie_rule \<Rightarrow> int \<Rightarrow> int \<Rightarrow> int" where
  "round_to_grid tie g x =
     (let q = x div g; r = x mod g in
      if 2 * r < g then q * g
      else if 2 * r > g then (q + 1) * g
      else (case tie of
              HalfUp \<Rightarrow> (q + 1) * g
            | HalfDown \<Rightarrow> q * g
            | HalfEven \<Rightarrow> if even q then q * g else (q + 1) * g))"

text \<open>
  \<open>main.py\<close> imports \<open>round_to_ass_grid\<close> from \<open>subtitles\<close> and, when the import fails,
  defines it as the identity.
\<close>

datatype subtitles_import = ImportFailed | Imported tie_rule int

fun round_to_ass_grid :: "subtitles_import \<Rightarrow> int \<Rightarrow> int" where
  "round_to_ass_grid ImportFailed x = x"
| "round_to_ass_grid (Imported tie g) x = round_to_grid tie g x"

text \<open>
  \<open>c["start"] = round_to_ass_grid(c["start"]); c["end"] = round_to_ass_grid(c["end"])\<close>
\<close>

definition snap_cue :: "subtitles_import \<Rightarrow> cue \<Rightarrow> py_error + cue" where
  "snap_cue imp c =
     (case cue_start c of
        None \<Rightarrow> Inl KeyError
      | Some s \<Rightarrow>
          (case cue_end c of
             None \<Rightarrow> Inl KeyError
           | Some e \<Rightarrow>
               Inr (c\<lparr>cue_start := Some (round_to_ass_grid imp s),
                      cue_end := Some (round_to_ass_grid imp e)\<rparr>)))"

fun snap_cues :: "subtitles_import \<Rightarrow> cue list \<Rightarrow> py_error + cue list" where
  "snap_cues imp [] = Inr []"
| "snap_cues imp (c # cs) =
     (case snap_cue imp c of
        Inl e \<Rightarrow> Inl e
      | Inr c' \<Rightarrow> (case snap_cues imp cs of Inl e \<Rightarrow> Inl e | Inr cs' \<Rightarrow> Inr (c' # cs')))"

text \<open>The pass runs only when \<open>ALIGN_TO_ASS_CENTISECOND_GRID\<close> is set.\<close>

definition align_to_grid :: "bool \<Rightarrow> subtitles_import \<Rightarrow> cue list \<Rightarrow> py_error + cue list" where
  "align_to_grid ALIGN_TO_ASS_CENTISECOND_GRID imp cues_src =
     (if ALIGN_TO_ASS_CENTISECOND_GRID then snap_cues imp cues_src else Inr cues_src)"

section \<open>video_utils.py: visual spans and frame counts\<close>

fun compute_visual_spans :: "cue list \<Rightarrow> int \<Rightarrow> py_error + (int \<times> int) list" where
  "compute_visual_spans [] total_audio_ms = Inr []"
| "compute_visual_spans [c] total_audio_ms =
     (case cue_start c of
        None \<Rightarrow> Inl KeyError
      | Some start \<Rightarrow> Inr [(start, total_audio_ms)])"
| "compute_visual_spans (c # c' # cs) total_audio_ms =
     (case cue_start c of
        None \<Rightarrow> Inl KeyError
      | Some start \<Rightarrow>
          (case cue_start c' of
             None \<Rightarrow> Inl KeyError
           | Some next_start \<Rightarrow>
               (case compute_visual_spans (c' # cs) total_audio_ms of
                  Inl e \<Rightarrow> Inl e
                | Inr spans \<Rightarrow> Inr ((start, max start next_start) # spans))))"

text \<open>
  Python's \<open>round\<close> of the quotient \<open>a / b\<close> for \<open>b > 0\<close>: to the nearest integer, a
  quotient exactly between two integers going to the even one. The source computes
  \<open>dur_ms * float(fps) / 1000.0\<close>; for an integral \<open>fps\<close> the product is exact and the
  rounded quotient is the one computed here.
\<close>

definition py_round_div :: "int \<Rightarrow> int \<Rightarrow> int" where
  "py_round_div a b =
     (let q = a div b; r = a mod b in
      if 2 * r < b then q else if 2 * r > b then q + 1 else if even q then q else q + 1)"

text \<open>
  \<open>dur_ms = max(0, end_ms - start_ms); frames = max(1, round(dur_ms * r_fps / 1000.0))\<close>
\<close>

definition span_frames :: "int \<Rightarrow> int \<times> int \<Rightarrow> int" where
  "span_frames fps sp =
     (let dur_ms = max 0 (snd sp - fst sp) in max 1 (py_round_div (dur_ms * fps) 1000))"

text \<open>
  The segments the slideshow renders, one per pair of \<open>zip(spans, per_sentence_images)\<close>:
  the image to hold (\<open>None\<close> for a black clip, also when the file does not exist) and the
  number of frames.
\<close>

definition segment_of :: "(string \<Rightarrow> bool) \<Rightarrow> int \<Rightarrow> (int \<times> int) \<times> string option \<Rightarrow> string option \<times> int" where
  "segment_of path_exists fps p =
     (case snd p of
        None \<Rightarrow> (None, span_frames fps (fst p))
      | Some img \<Rightarrow>
          (if img \<noteq> [] \<and> path_exists img then (Some img, span_frames fps (fst p))
           else (None, span_frames fps (fst p))))"

definition build_slideshow_video_cfr ::
  "(string \<Rightarrow> bool) \<Rightarrow> cue list \<Rightarrow> string option list \<Rightarrow> int \<Rightarrow> int \<Rightarrow> py_error + (string option \<times> int) list" where
  "build_slideshow_video_cfr path_exists cues per_sentence_images total_audio_ms fps =
     (case compute_visual_spans cues total_audio_ms of
        Inl e \<Rightarrow> Inl e
      | Inr spans \<Rightarrow> Inr (map (segment_of path_exists fps) (zip spans per_sentence_images)))"

text \<open>
  The frame count as the specification words it, \<open>round(duration_ms * fps / 1000)\<close>, for
  comparison with \<open>span_frames\<close>.
\<close>

definition spec_frame_count :: "int \<Rightarrow> int \<times> int \<Rightarrow> int" where
  "spec_frame_count fps sp = py_round_div ((snd sp - fst sp) * fps) 1000"

text \<open>A cue that carries only a start time, as the slideshow reads nothing else.\<close>

definition cue_at :: "int \<Rightarrow> cue" where
  "cue_at s = \<lparr>cue_start = Some s, cue_end = None, cue_text = None, cue_lang = None,
               cue_repeat = None, cue_is_primary = None, cue_tags = None\<rparr>"

section \<open>video_utils.py: text normalisation\<close>

text \<open>
  Texts are strings of ASCII characters. On such text the three steps of
  \<open>_normalize_text\<close> that look at characters beyond ASCII change nothing: the replacement
  of typographic quotes and dashes, and \<open>_strip_accents\<close> (canonical decomposition,
  then removal of the combining marks).
\<close>

definition lower_char :: "char \<Rightarrow> char" where
  "lower_char c =
     (case map_of (zip ''ABCDEFGHIJKLMNOPQRSTUVWXYZ'' ''abcdefghijklmnopqrstuvwxyz'') c of
        Some d \<Rightarrow> d
      | None \<Rightarrow> c)"

definition lower :: "string \<Rightarrow> string" where
  "lower s = map lower_char s"

text \<open>\<open>string.punctuation\<close>\<close>

definition punctuation :: "char list" where
  "punctuation = ''!#$%&()*+,-./:;<=>?@[]^_{|}~'' @ [CHR 0x22, CHR 0x27, CHR 0x5C, CHR 0x60]"

text \<open>
  The ASCII characters that \<open>\s\<close>, \<open>str.split()\<close> and \<open>str.strip()\<close> treat as white space.
\<close>

definition is_space :: "char \<Rightarrow> bool" where
  "is_space c =
     (c \<in> set [CHR 0x20, CHR 0x09, CHR 0x0A, CHR 0x0B, CHR 0x0C, CHR 0x0D,
                 CHR 0x1C, CHR 0x1D, CHR 0x1E, CHR 0x1F])"

text \<open>\<open>re.sub(r"\s+", " ", s)\<close>: every run of white space becomes one blank.\<close>

fun collapse_ws :: "string \<Rightarrow> string" where
  "collapse_ws [] = []"
| "collapse_ws [c] = [if is_space c then CHR 0x20 else c]"
| "collapse_ws (c # d # cs) =
     (if is_space c \<and> is_space d then collapse_ws (d # cs)
      else (if is_space c then CHR 0x20 else c) # collapse_ws (d # cs))"

definition strip :: "string \<Rightarrow> string" where
  "strip s = rev (dropWhile is_space (rev (dropWhile is_space s)))"

definition strip_accents :: "string \<Rightarrow> string" where
  "strip_accents s = s"

definition normalize_text :: "string \<Rightarrow> string" where
  "normalize_text s =
     strip (collapse_ws (filter (\<lambda>c. c \<notin> set punctuation) (strip_accents (lower s))))"

text \<open>\<open>s.split()\<close>: the maximal runs of characters that are not white space.\<close>

fun split_ws :: "string \<Rightarrow> string \<Rightarrow> string list" where
  "split_ws cur [] = (if cur = [] then [] else [cur])"
| "split_ws cur (c # cs) =
     (if is_space c then (if cur = [] then split_ws [] cs else cur # split_ws [] cs)
      else split_ws (cur @ [c]) cs)"

definition words :: "string \<Rightarrow> string list" where
  "words s = split_ws [] s"

text \<open>\<open>s.split(sep)\<close> for a separator of one character.\<close>

fun split_at :: "char \<Rightarrow> string \<Rightarrow> string \<Rightarrow> string list" where
  "split_at sep cur [] = [cur]"
| "split_at sep cur (c # cs) =
     (if c = sep then cur # split_at sep [] cs else split_at sep (cur @ [c]) cs)"

definition split_on :: "char \<Rightarrow> string \<Rightarrow> string list" where
  "split_on sep s = split_at sep [] s"

text \<open>\<open>sep.join(parts)\<close>\<close>

fun join :: "string \<Rightarrow> string list \<Rightarrow> string" where
  "join sep [] = []"
| "join sep [p] = p"
| "join sep (p # q # ps) = p @ sep @ join sep (q # ps)"

text \<open>\<open>k in text\<close> for strings: \<open>k\<close> occurs in \<open>text\<close> as a contiguous piece.\<close>

fun starts_with :: "string \<Rightarrow> string \<Rightarrow> bool" where
  "starts_with s [] = True"
| "starts_with [] (k # ks) = False"
| "starts_with (c # cs) (k # ks) = (c = k \<and> starts_with cs ks)"

fun contains :: "string \<Rightarrow> string \<Rightarrow> bool" where
  "contains [] k = (k = [])"
| "contains (c # cs) k = (starts_with (c # cs) k \<or> contains cs k)"

text \<open>
  The stop words. An entry of the French, German or Persian table that has a character
  beyond ASCII cannot be equal to a word of ASCII text, so only the ASCII entries are
  listed.
\<close>

definition STOPWORDS_EN :: "string list" where
  "STOPWORDS_EN =
     [''the'', ''a'', ''an'', ''and'', ''or'', ''but'', ''in'', ''on'', ''at'', ''for'', ''with'',
      ''to'', ''of'', ''is'', ''are'', ''was'', ''were'', ''this'', ''that'', ''these'', ''those'',
      ''please'', ''can'', ''could'', ''you'', ''i'', ''it'', ''my'', ''your'', ''me'', ''we'',
      ''they'', ''do'', ''have'', ''has'', ''am'', ''be'', ''been'', ''being'', ''will'', ''would'',
      ''should'', ''could'', ''may'', ''might'', ''make'', ''made'', ''take'', ''bring'', ''need'',
      ''want'', ''like'', ''show'', ''explain'', ''print'', ''charge'', ''put'', ''add'', ''less'',
      ''more'', ''without'', ''no'', ''not'', ''isn'', ''aren'', ''does'', ''did'', ''doesn'',
      ''don'', ''cannot'', ''ok'', ''size'', ''small'', ''medium'', ''large'', ''here'', ''there'',
      ''set'', ''are'', ''card'', ''cash'', ''by'', ''from'', ''with'']"

definition STOPWORDS_FR :: "string list" where
  "STOPWORDS_FR =
     [''je'', ''tu'', ''il'', ''elle'', ''nous'', ''vous'', ''ils'', ''elles'', ''de'', ''des'',
      ''du'', ''le'', ''la'', ''les'', ''un'', ''une'', ''et'', ''ou'', ''mais'', ''dans'', ''en'',
      ''au'', ''aux'', ''avec'', ''pour'', ''par'', ''sur'', ''sous'', ''ce'', ''cet'', ''cette'',
      ''ces'', ''mon'', ''ma'', ''mes'', ''ton'', ''ta'', ''tes'', ''son'', ''sa'', ''ses'',
      ''leur'', ''leurs'', ''est'', ''suis'', ''es'', ''sommes'', ''sont'', ''ne'', ''pas'',
      ''que'', ''qui'', ''quoi'', ''quand'', ''comment'', ''d'', ''l'', ''n'', ''c'', ''j'', ''t'',
      ''s'', ''moi'', ''toi'', ''lui'', ''elle'', ''leur'', ''y'', ''en'', ''bien'', ''svp'',
      ''vous'', ''veuillez'', ''faire'', ''mettre'', ''prendre'', ''apporter'', ''besoin'',
      ''voudrais'', ''taille'', ''petite'', ''moyenne'', ''grande'', ''ici'', ''sur'', ''place'',
      ''emporter'', ''carte'']"

definition STOPWORDS_DE :: "string list" where
  "STOPWORDS_DE =
     [''der'', ''die'', ''das'', ''ein'', ''eine'', ''einen'', ''einem'', ''einer'', ''und'',
      ''oder'', ''aber'', ''in'', ''auf'', ''an'', ''bei'', ''mit'', ''zu'', ''von'', ''ist'',
      ''sind'', ''war'', ''waren'', ''bitte'', ''kann'', ''sie'', ''ich'', ''es'', ''mein'',
      ''meine'', ''dein'', ''deine'', ''ihr'', ''ihre'', ''unser'', ''unsere'', ''dies'', ''das'',
      ''diese'', ''jene'', ''machen'', ''nehmen'', ''bringen'', ''brauche'', ''mag'', ''zeigen'',
      ''drucken'', ''belasten'', ''geben'', ''weniger'', ''mehr'', ''ohne'', ''nicht'', ''kleine'',
      ''mittlere'', ''hier'', ''da'', ''karte'', ''bar'']"

definition STOPWORDS_FA :: "string list" where
  "STOPWORDS_FA = []"

definition language_stopwords :: "string \<Rightarrow> string list" where
  "language_stopwords lang =
     (if starts_with lang ''fr'' then STOPWORDS_FR
      else if starts_with lang ''de'' then STOPWORDS_DE
      else if starts_with lang ''fa'' then STOPWORDS_FA
      else STOPWORDS_EN)"

definition tokenize :: "string \<Rightarrow> string \<Rightarrow> string list" where
  "tokenize text lang =
     (let t = normalize_text text;
          ws = words t;
          sw = language_stopwords lang
      in filter (\<lambda>w. length w > 2 \<and> w \<notin> set sw) ws)"

section \<open>video_utils.py: character trigrams\<close>

text \<open>
  \<open>_trigrams(s)\<close>: the pieces of length 3 of the string padded with two blanks on each
  side.
\<close>

definition trigrams :: "string \<Rightarrow> string set" where
  "trigrams s =
     (let p = ''  '' @ s @ ''  '' in set (map (\<lambda>i. take 3 (drop i p)) [0..<length p - 3 + 1]))"

text \<open>
  The similarity is a quotient of two small natural numbers; it is kept as a rational
  number, and the comparisons with the thresholds 0.62 and 0.25 come out as they do on
  the floating-point quotient.
\<close>

definition tri_sim :: "string \<Rightarrow> string \<Rightarrow> rat" where
  "tri_sim a b =
     (let A = trigrams (normalize_text a); B = trigrams (normalize_text b) in
      if A = {} \<or> B = {} then 0
      else of_nat (card (A \<inter> B)) / of_nat (card (A \<union> B)))"

definition TRIGRAM_MATCH_THRESHOLD :: rat where
  "TRIGRAM_MATCH_THRESHOLD = 62 / 100"

definition TRIGRAM_TAG_THRESHOLD :: rat where
  "TRIGRAM_TAG_THRESHOLD = 25 / 100"

section \<open>video_utils.py: ranking\<close>

text \<open>
  A Python \<open>set\<close> of strings is kept as the list of the strings put into it. The order in
  which Python walks such a set follows the hashes of the strings, which change from one
  process to the next; it is a parameter \<open>iter\<close> of every function that walks a set, from
  the list of insertions to the list walked.
\<close>

type_synonym set_iter = "string list \<Rightarrow> string list"

text \<open>
  The two sets of \<open>_score_hit\<close>: the words of the tag text and the query tokens longer
  than two characters.
\<close>

definition tag_tokens_of :: "string \<Rightarrow> string list" where
  "tag_tokens_of tags =
     concat (map (\<lambda>t. words (normalize_text t)) (split_on (CHR '','') (normalize_text tags)))"

definition rq_of :: "string list \<Rightarrow> string list" where
  "rq_of raw_query_tokens = filter (\<lambda>w. length w > 2) raw_query_tokens"

text \<open>\<open>overlap = len(tag_tokens & rq) / max(1, len(rq))\<close>\<close>

definition overlap_of :: "string \<Rightarrow> string list \<Rightarrow> rat" where
  "overlap_of tags raw_query_tokens =
     of_nat (card (set (tag_tokens_of tags) \<inter> set (rq_of raw_query_tokens)))
       / of_nat (max 1 (card (set (rq_of raw_query_tokens))))"

text \<open>
  \<open>tri = 0.0; if rq: tri = max(_tri_sim(" ".join(tag_tokens), " ".join(rq)), 0.0)\<close>
\<close>

definition tri_of :: "set_iter \<Rightarrow> string \<Rightarrow> string list \<Rightarrow> rat" where
  "tri_of iter tags raw_query_tokens =
     (if set (rq_of raw_query_tokens) \<noteq> {}
      then max (tri_sim (join '' '' (iter (tag_tokens_of tags)))
                        (join '' '' (iter (rq_of raw_query_tokens)))) 0
      else 0)"

definition score_hit :: "set_iter \<Rightarrow> string \<Rightarrow> string list \<Rightarrow> rat" where
  "score_hit iter tags raw_query_tokens =
     (if set (tag_tokens_of tags) = {} then 0
      else
        (let overlap = overlap_of tags raw_query_tokens;
             tri = tri_of iter tags raw_query_tokens;
             boost = 1 + (if tri \<ge> TRIGRAM_TAG_THRESHOLD then tri else 0)
         in overlap * boost))"

text \<open>\<open>any(k in text for k in ks)\<close>\<close>

definition any_in :: "string list \<Rightarrow> string \<Rightarrow> bool" where
  "any_in ks text = list_ex (\<lambda>k. contains text k) ks"

definition domain_keyword_boost :: "string \<Rightarrow> rat" where
  "domain_keyword_boost text0 =
     (let text = lower text0 in
      if any_in [''airport'', ''gate'', ''boarding'', ''passport''] text then 110 / 100
      else if any_in [''pharmacy'', ''medicine'', ''clinic''] text then 110 / 100
      else if any_in [''bank'', ''atm'', ''finance''] text then 108 / 100
      else if any_in [''hotel'', ''reception'', ''lobby'', ''towel''] text then 108 / 100
      else if any_in [''clothing'', ''fashion'', ''fitting room'', ''dress'', ''jacket''] text
        then 108 / 100
      else if any_in [''post'', ''mail'', ''shipping'', ''stamp''] text then 108 / 100
      else if any_in [''coffee'', ''cafe'', ''tea''] text then 105 / 100
      else if any_in [''street'', ''bridge'', ''map'', ''square''] text then 105 / 100
      else 1)"

text \<open>
  A ranked candidate. The \<open>meta\<close> entry, which only feeds the credit file, is left out.
\<close>

record ranked =
  item_provider :: string
  item_score :: rat
  item_src :: string
  item_tags :: string

text \<open>\<open>a or b\<close> on two optional strings: the first that is present and not empty.\<close>

definition truthy :: "string option \<Rightarrow> string option" where
  "truthy a = (case a of None \<Rightarrow> None | Some s \<Rightarrow> if s = [] then None else Some s)"

definition or_else :: "string option \<Rightarrow> string option \<Rightarrow> string option" where
  "or_else a b = (case truthy a of Some s \<Rightarrow> Some s | None \<Rightarrow> b)"

text \<open>One entry of the \<open>hits\<close> of a Pixabay answer.\<close>

record pixabay_hit =
  largeImageURL :: "string option"
  webformatURL :: "string option"
  hit_tags :: "string option"
  hit_type :: "string option"

text \<open>The body of the loop over \<open>hits\<close>; \<open>None\<close> is the \<open>continue\<close>.\<close>

definition pixabay_item :: "set_iter \<Rightarrow> string list \<Rightarrow> pixabay_hit \<Rightarrow> ranked option" where
  "pixabay_item iter raw_tokens h =
     (case truthy (or_else (largeImageURL h) (webformatURL h)) of
        None \<Rightarrow> None
      | Some s \<Rightarrow>
          (let tgs = (case hit_tags h of None \<Rightarrow> [] | Some t \<Rightarrow> t);
               score0 = score_hit iter tgs raw_tokens;
               score1 = score0 * domain_keyword_boost tgs;
               score2 = (if hit_type h = Some ''photo'' then score1 * (105 / 100) else score1)
           in Some \<lparr>item_provider = ''pixabay'', item_score = score2, item_src = s, item_tags = tgs\<rparr>))"

text \<open>
  \<open>ranked.sort(key=lambda x: x["score"], reverse=True)\<close>: descending, candidates of equal
  score keeping their order.
\<close>

definition sort_by_score :: "ranked list \<Rightarrow> ranked list" where
  "sort_by_score rs = sort_key (\<lambda>x. - item_score x) rs"

text \<open>
  \<open>_pixabay_ranked\<close>, given the answer of the search request: \<open>None\<close> when the request or
  its decoding raised.
\<close>

definition pixabay_ranked :: "set_iter \<Rightarrow> pixabay_hit list option \<Rightarrow> string \<Rightarrow> ranked list" where
  "pixabay_ranked iter answer query =
     (case answer of
        None \<Rightarrow> []
      | Some hits \<Rightarrow>
          (let raw_tokens = tokenize (normalize_text query) ''en''
           in sort_by_score (List.map_filter (pixabay_item iter raw_tokens) hits)))"

text \<open>One entry of the \<open>results\<close> of an Unsplash answer.\<close>

record unsplash_photo =
  url_regular :: "string option"
  url_full :: "string option"
  url_raw :: "string option"
  tag_titles :: "string list"
  alt_description :: "string option"
  description :: "string option"
  likes :: int

definition unsplash_tags :: "unsplash_photo \<Rightarrow> string" where
  "unsplash_tags ph =
     (let tag_text = join '','' (tag_titles ph);
          alt_desc = (case alt_description ph of None \<Rightarrow> [] | Some s \<Rightarrow> s);
          desc = (case description ph of None \<Rightarrow> [] | Some s \<Rightarrow> s)
      in join '','' (filter (\<lambda>s. s \<noteq> []) [tag_text, alt_desc, desc]))"

definition unsplash_item :: "set_iter \<Rightarrow> string list \<Rightarrow> unsplash_photo \<Rightarrow> ranked option" where
  "unsplash_item iter raw_tokens ph =
     (case truthy (or_else (url_regular ph) (or_else (url_full ph) (url_raw ph))) of
        None \<Rightarrow> None
      | Some s \<Rightarrow>
          (let tgs = unsplash_tags ph;
               score0 = score_hit iter tgs raw_tokens;
               score1 = score0 * domain_keyword_boost tgs;
               score2 = score1 * (1 + of_int (min (likes ph) 200) / 500)
           in Some \<lparr>item_provider = ''unsplash'', item_score = score2, item_src = s, item_tags = tgs\<rparr>))"

definition unsplash_ranked :: "set_iter \<Rightarrow> unsplash_photo list option \<Rightarrow> string \<Rightarrow> ranked list" where
  "unsplash_ranked iter answer query =
     (case answer of
        None \<Rightarrow> []
      | Some results \<Rightarrow>
          (let raw_tokens = tokenize (normalize_text query) ''en''
           in sort_by_score (List.map_filter (unsplash_item iter raw_tokens) results)))"

section \<open>video_utils.py: searching both providers and downloading\<close>

text \<open>
  What the resolver finds around it: the two API keys, the answers of the two search
  endpoints, and whether \<open>_download_image\<close> gets the file of a source URL (from the cache
  or from the network).
\<close>

record world =
  pix_key :: "string option"
  uns_key :: "string option"
  pixabay_api :: "string \<Rightarrow> string option \<Rightarrow> pixabay_hit list option"
  unsplash_api :: "string \<Rightarrow> unsplash_photo list option"
  fetch_ok :: "string \<Rightarrow> bool"

definition search_both_ranked :: "set_iter \<Rightarrow> world \<Rightarrow> string \<Rightarrow> string option \<Rightarrow> ranked list" where
  "search_both_ranked iter w query category =
     (let from_pix = (case truthy (pix_key w) of
                        Some k \<Rightarrow> pixabay_ranked iter (pixabay_api w query category) query
                      | None \<Rightarrow> []);
          from_uns = (case truthy (uns_key w) of
                        Some k \<Rightarrow> unsplash_ranked iter (unsplash_api w query) query
                      | None \<Rightarrow> [])
      in sort_by_score (from_pix @ from_uns))"

text \<open>
  \<open>_download_image\<close>: the path of the file, named after the hash of provider, query and
  source URL; the key of the hash stands for the path. \<open>None\<close> when the download raised.
\<close>

definition download_image :: "world \<Rightarrow> string \<Rightarrow> string \<Rightarrow> string \<Rightarrow> string option" where
  "download_image w source query prov =
     (if fetch_ok w source then Some (prov @ ''|'' @ query @ ''|'' @ source) else None)"

text \<open>
  The loop over \<open>ranked_all\<close>, with \<open>out\<close> and \<open>seen_src\<close> threaded through, and with the
  list of the source URLs handed to \<open>_download_image\<close> so far.
\<close>

fun download_loop ::
  "world \<Rightarrow> string \<Rightarrow> int \<Rightarrow> ranked list \<Rightarrow> string list \<Rightarrow> string set \<Rightarrow> string list
     \<Rightarrow> string list \<times> string list" where
  "download_loop w query n [] out seen_src downloads = (out, downloads)"
| "download_loop w query n (item # rest) out seen_src downloads =
     (if item_src item \<in> seen_src then download_loop w query n rest out seen_src downloads
      else
        (let out' = (case download_image w (item_src item) query (item_provider item) of
                       Some p \<Rightarrow> out @ [p]
                     | None \<Rightarrow> out)
         in if int (length out') \<ge> n then (out', downloads @ [item_src item])
            else download_loop w query n rest out' (insert (item_src item) seen_src)
                   (downloads @ [item_src item])))"

text \<open>
  \<open>search_and_download_best\<close>; the second component lists the downloads it asked for.
\<close>

definition search_and_download_best ::
  "set_iter \<Rightarrow> world \<Rightarrow> string \<Rightarrow> int \<Rightarrow> string option \<Rightarrow> string list \<times> string list" where
  "search_and_download_best iter w query n category =
     (let ranked_all = search_both_ranked iter w query category in
      if ranked_all = [] then ([], [])
      else download_loop w query n ranked_all [] {} [])"

section \<open>video_utils.py: the lexicon matcher\<close>

text \<open>
  \<open>guess_lang\<close>. Its first test looks for one of 32 Persian letters; none of them is an
  ASCII character.
\<close>

definition persian_letters :: "char list" where
  "persian_letters = []"

definition guess_lang :: "string \<Rightarrow> string" where
  "guess_lang text =
     (if list_ex (\<lambda>c. c \<in> set persian_letters) text then ''fa''
      else if any_in ['' le '', '' la '', '' les '', '' une '', '' un '', '' je '', ''vous '',
                      ''s'' @ [CHR 0x27] @ ''il ''] (lower text) then ''fr''
      else if any_in ['' der '', '' die '', '' das '', '' ich '', '' bitte '', ''karte '']
                 (lower text) then ''de''
      else ''en'')"

text \<open>
  \<open>s.replace(old, new)\<close>: the occurrences of \<open>old\<close> are found from the left, without
  overlap; \<open>skip\<close> counts the characters of a found occurrence still to pass.
\<close>

fun replace_from :: "string \<Rightarrow> string \<Rightarrow> nat \<Rightarrow> string \<Rightarrow> string" where
  "replace_from old new skip [] = []"
| "replace_from old new skip (c # cs) =
     (if skip > 0 then replace_from old new (skip - 1) cs
      else if starts_with (c # cs) old then new @ replace_from old new (length old - 1) cs
      else c # replace_from old new 0 cs)"

definition replace :: "string \<Rightarrow> string \<Rightarrow> string \<Rightarrow> string" where
  "replace s old new =
     (if old = [] then new @ concat (map (\<lambda>c. c # new) s) else replace_from old new 0 s)"

text \<open>
  The column \<open>"en"\<close> of \<open>LEXICON\<close>, in the order of declaration. For the language
  \<open>en\<close> the matcher looks at no other column.
\<close>

definition LEXICON_en :: "(string \<times> (string \<times> string list) list) list" where
  "LEXICON_en =
     [(''espresso'', [(''en'', [''espresso''])]), (''americano'', [(''en'', [''americano''])]),
      (''cappuccino'', [(''en'', [''cappuccino''])]), (''latte'', [(''en'', [''latte''])]),
      (''flat white'', [(''en'', [''flat white''])]),
      (''black coffee'', [(''en'', [''black coffee''])]),
      (''green tea'', [(''en'', [''green tea''])]),
      (''herbal tea'', [(''en'', [''herbal tea''])]),
      (''hot chocolate'', [(''en'', [''hot chocolate''])]),
      (''croissant'', [(''en'', [''croissant''])]), (''sandwich'', [(''en'', [''sandwich''])]),
      (''menu'', [(''en'', [''menu''])]), (''bill'', [(''en'', [''bill'', ''check''])]),
      (''receipt'', [(''en'', [''receipt''])]),
      (''cough syrup'', [(''en'', [''cough syrup''])]),
      (''pain tablets'', [(''en'', [''pain tablets'', ''painkillers''])]),
      (''nasal spray'', [(''en'', [''nasal spray''])]),
      (''thermometer'', [(''en'', [''thermometer''])]),
      (''vitamins'', [(''en'', [''vitamins''])]),
      (''pharmacy interior'', [(''en'', [''pharmacy''])]),
      (''passport'', [(''en'', [''passport''])]),
      (''boarding pass'', [(''en'', [''boarding pass''])]),
      (''check in desk'', [(''en'', [''check in desk'', ''check-in counter''])]),
      (''gate'', [(''en'', [''gate''])]),
      (''carry on bag'', [(''en'', [''carry on bag'', ''cabin bag''])]),
      (''suitcase'', [(''en'', [''suitcase'', ''luggage''])]),
      (''airport interior'', [(''en'', [''airport''])]),
      (''bank account'', [(''en'', [''bank account''])]),
      (''debit card'', [(''en'', [''bank card'', ''debit card''])]),
      (''pin code'', [(''en'', [''pin code''])]),
      (''bank transfer'', [(''en'', [''money transfer'', ''bank transfer''])]),
      (''online banking'', [(''en'', [''online banking''])]),
      (''bank interior'', [(''en'', [''bank''])]), (''jacket'', [(''en'', [''jacket''])]),
      (''shirt'', [(''en'', [''shirt''])]),
      (''trousers'', [(''en'', [''trousers'', ''pants''])]),
      (''dress'', [(''en'', [''dress''])]), (''shoes'', [(''en'', [''shoes''])]),
      (''belt'', [(''en'', [''belt''])]),
      (''fitting room'', [(''en'', [''fitting room'', ''changing room''])]),
      (''cashier'', [(''en'', [''cashier'', ''checkout''])]),
      (''clothing store interior'', [(''en'', [''clothing store''])]),
      (''bus stop'', [(''en'', [''bus stop''])]), (''park'', [(''en'', [''park''])]),
      (''map'', [(''en'', [''map''])]), (''street'', [(''en'', [''street''])]),
      (''square'', [(''en'', [''square'', ''plaza''])]),
      (''bridge'', [(''en'', [''bridge''])]), (''hotel exterior'', [(''en'', [''hotel''])]),
      (''fever'', [(''en'', [''fever''])]), (''cough'', [(''en'', [''cough''])]),
      (''sore throat'', [(''en'', [''sore throat''])]),
      (''stomach ache'', [(''en'', [''stomach ache'', ''stomachache''])]),
      (''prescription'', [(''en'', [''prescription''])]),
      (''clinic interior'', [(''en'', [''clinic'', ''doctor office''])]),
      (''reservation'', [(''en'', [''reservation'', ''booking''])]),
      (''check in'', [(''en'', [''check in'', ''check-in''])]),
      (''key card'', [(''en'', [''key card''])]),
      (''towel'', [(''en'', [''towel'', ''towels''])]),
      (''extra pillow'', [(''en'', [''extra pillow''])]),
      (''invoice'', [(''en'', [''invoice''])]),
      (''hotel reception'', [(''en'', [''hotel reception'', ''front desk''])]),
      (''smartphone'', [(''en'', [''smartphone'', ''mobile phone''])]),
      (''sim card'', [(''en'', [''sim card'', ''sim''])]),
      (''charger'', [(''en'', [''charger''])]), (''cable'', [(''en'', [''cable''])]),
      (''case'', [(''en'', [''phone case'', ''case''])]),
      (''screen protector'', [(''en'', [''screen protector''])]),
      (''electronics store'', [(''en'', [''phone shop'', ''electronics store''])]),
      (''parcel'', [(''en'', [''parcel'', ''package''])]),
      (''letter'', [(''en'', [''letter'', ''mail''])]),
      (''stamp'', [(''en'', [''stamps'', ''stamp''])]), (''label'', [(''en'', [''label''])]),
      (''registered'', [(''en'', [''registered mail''])]),
      (''express delivery'', [(''en'', [''express delivery''])]),
      (''post office interior'', [(''en'', [''post office''])])]"

definition QUERY_TEMPLATES :: "(string \<times> string \<times> string option) list" where
  "QUERY_TEMPLATES =
     [(''espresso'', ''espresso coffee cup'', Some ''food''),
      (''americano'', ''americano coffee'', Some ''food''),
      (''cappuccino'', ''cappuccino with latte art'', Some ''food''),
      (''latte'', ''cafe latte cup'', Some ''food''),
      (''flat white'', ''flat white coffee'', Some ''food''),
      (''black coffee'', ''black coffee cup'', Some ''food''),
      (''green tea'', ''green tea cup'', Some ''food''),
      (''herbal tea'', ''herbal tea cup'', Some ''food''),
      (''hot chocolate'', ''hot chocolate mug'', Some ''food''),
      (''croissant'', ''croissant pastry on plate'', Some ''food''),
      (''sandwich'', ''sandwich on wooden board'', Some ''food''),
      (''menu'', ''restaurant menu on table'', Some ''food''),
      (''bill'', ''restaurant bill on table'', Some ''food''),
      (''receipt'', ''receipt on table'', Some ''food''),
      (''cough syrup'', ''cough syrup bottle pharmacy shelf'', Some ''health''),
      (''pain tablets'', ''pain relief tablets blister pack'', Some ''health''),
      (''nasal spray'', ''nasal spray bottle'', Some ''health''),
      (''thermometer'', ''digital thermometer'', Some ''health''),
      (''vitamins'', ''vitamin pills bottle'', Some ''health''),
      (''pharmacy interior'', ''pharmacy interior shelves'', Some ''health''),
      (''passport'', ''passport on airport counter'', Some ''travel''),
      (''boarding pass'', ''boarding pass at airport'', Some ''travel''),
      (''check in desk'', ''airport check-in counter'', Some ''travel''),
      (''gate'', ''airport gate sign'', Some ''travel''),
      (''carry on bag'', ''carry on bag at airport'', Some ''travel''),
      (''suitcase'', ''traveler with suitcase in airport'', Some ''travel''),
      (''airport interior'', ''modern airport interior'', Some ''travel''),
      (''bank account'', ''bank counter opening account'', Some ''business''),
      (''debit card'', ''credit debit card closeup'', Some ''business''),
      (''pin code'', ''entering pin at atm keypad'', Some ''business''),
      (''bank transfer'', ''online banking transfer screen'', Some ''business''),
      (''online banking'', ''online banking smartphone app'', Some ''business''),
      (''bank interior'', ''bank interior counter'', Some ''business''),
      (''jacket'', ''jacket on hanger clothing store'', Some ''fashion''),
      (''shirt'', ''men shirt on hanger'', Some ''fashion''),
      (''trousers'', ''trousers on rack'', Some ''fashion''),
      (''dress'', ''dress on mannequin'', Some ''fashion''),
      (''shoes'', ''shoes display in store'', Some ''fashion''),
      (''belt'', ''leather belt display'', Some ''fashion''),
      (''fitting room'', ''fitting room clothing store'', Some ''fashion''),
      (''cashier'', ''cashier counter store'', Some ''fashion''),
      (''clothing store interior'', ''clothing store interior'', Some ''fashion''),
      (''bus stop'', ''city bus stop'', Some ''transportation''),
      (''park'', ''city park path'', Some ''places''),
      (''map'', ''tourist reading city map'', Some ''people''),
      (''street'', ''city street view'', Some ''places''),
      (''square'', ''town square plaza'', Some ''places''),
      (''bridge'', ''city bridge over river'', Some ''places''),
      (''hotel exterior'', ''hotel exterior entrance'', Some ''travel''),
      (''fever'', ''fever thermometer patient'', Some ''health''),
      (''cough'', ''woman coughing medical'', Some ''health''),
      (''sore throat'', ''sore throat patient doctor'', Some ''health''),
      (''stomach ache'', ''stomach ache person'', Some ''health''),
      (''prescription'', ''doctor writing prescription'', Some ''health''),
      (''clinic interior'', ''clinic waiting room'', Some ''health''),
      (''reservation'', ''hotel reservation at reception'', Some ''travel''),
      (''check in'', ''hotel check-in reception desk'', Some ''travel''),
      (''key card'', ''hotel key card at reception'', Some ''travel''),
      (''towel'', ''two towels on bed hotel'', Some ''travel''),
      (''extra pillow'', ''extra pillow on bed'', Some ''travel''),
      (''invoice'', ''invoice receipt hotel'', Some ''business''),
      (''hotel reception'', ''hotel reception front desk'', Some ''travel''),
      (''smartphone'', ''smartphone display in store'', Some ''computer''),
      (''sim card'', ''sim card on hand'', Some ''computer''),
      (''charger'', ''phone charger on table'', Some ''computer''),
      (''cable'', ''usb cable closeup'', Some ''computer''),
      (''case'', ''phone case wall display'', Some ''computer''),
      (''screen protector'', ''installing screen protector'', Some ''computer''),
      (''electronics store'', ''electronics store interior'', Some ''computer''),
      (''parcel'', ''sending parcel at post office'', Some ''business''),
      (''letter'', ''writing letter envelope'', Some ''business''),
      (''stamp'', ''postage stamps'', Some ''business''),
      (''label'', ''shipping label closeup'', Some ''business''),
      (''registered'', ''registered mail counter'', Some ''business''),
      (''express delivery'', ''express delivery package'', Some ''transportation''),
      (''post office interior'', ''post office counter interior'', Some ''business'')]"

definition MODIFIER_PHRASES :: "string list" where
  "MODIFIER_PHRASES =
     [''with milk'', ''without milk'', ''no milk'', ''milk'', ''with sugar'',
      ''without sugar'', ''no sugar'', ''sugar'', ''with ice'', ''without ice'', ''no ice'',
      ''ice'', ''soy milk'', ''oat milk'', ''almond milk'', ''lactose free'', ''gluten free'',
      ''small size'', ''medium size'', ''large size'', ''extra hot'', ''less hot'',
      ''with warranty'', ''without contract'', ''more storage'', ''online banking'',
      ''no monthly fee'', ''with priority'', ''with a tag'', ''without liquids'',
      ''for children'', ''for adults'', ''sans sucre'', ''ohne zucker'', ''blue'', ''black'',
      ''white'', ''large'', ''medium'', ''small'']"

definition NEGATORS :: "string list" where
  "NEGATORS = [''no'', ''not'', ''without'', ''ohne'', ''sans'']"

text \<open>
  \<open>MODIFIER_PHRASES\<close> and \<open>NEGATORS\<close> are sets. Their entries with a character beyond
  ASCII are left out: replacing such a phrase changes no ASCII text.
\<close>

definition clean_modifiers :: "set_iter \<Rightarrow> string \<Rightarrow> string" where
  "clean_modifiers iter text =
     (let t0 = normalize_text text;
          t1 = foldl (\<lambda>t m. replace t (normalize_text m) '' '') t0 (iter MODIFIER_PHRASES);
          t2 = foldl (\<lambda>t n. replace t ('' '' @ n @ '' '') '' '') t1 (iter NEGATORS)
      in strip (collapse_ws t2))"

text \<open>
  \<open>re.search(rf"\b{re.escape(p)}\b", s)\<close>: the start of the leftmost occurrence of \<open>p\<close>
  in \<open>s\<close> that has a word boundary on both sides. A word character is a letter, a digit
  or the underscore.
\<close>

definition is_word_char :: "char \<Rightarrow> bool" where
  "is_word_char c =
     (c \<in> set ''abcdefghijklmnopqrstuvwxyzABCDEFGHIJKLMNOPQRSTUVWXYZ0123456789_'')"

definition word_at :: "string \<Rightarrow> nat \<Rightarrow> bool" where
  "word_at s i = (i < length s \<and> is_word_char (s ! i))"

definition boundary :: "string \<Rightarrow> nat \<Rightarrow> bool" where
  "boundary s i = ((i > 0 \<and> word_at s (i - 1)) \<noteq> word_at s i)"

definition word_search :: "string \<Rightarrow> string \<Rightarrow> nat option" where
  "word_search p s =
     List.find (\<lambda>i. take (length p) (drop i s) = p \<and> boundary s i \<and> boundary s (i + length p))
       [0..<Suc (length s - length p)]"

text \<open>
  The lexicon maps a canonical concept to its variants per language. \<open>d.get(k, [])\<close> on
  such a dictionary:
\<close>

type_synonym lexicon = "(string \<times> (string \<times> string list) list) list"

definition get_list :: "(string \<times> string list) list \<Rightarrow> string \<Rightarrow> string list" where
  "get_list d k = (case map_of d k of None \<Rightarrow> [] | Some v \<Rightarrow> v)"

text \<open>\<open>code = lang.split("-")[0][:2]\<close>\<close>

definition lang_code :: "string \<Rightarrow> string" where
  "lang_code lang = take 2 (hd (split_on (CHR ''-'') lang))"

definition vlist_of :: "string \<Rightarrow> (string \<times> string list) list \<Rightarrow> string list" where
  "vlist_of code variants =
     get_list variants code @ (if code \<noteq> ''en'' then get_list variants ''en'' else [])"

text \<open>
  The first pass: the inner loop walks \<open>sorted(set(vlist), key=len, reverse=True)\<close> and
  stops at the first variant found.
\<close>

definition exact_match :: "set_iter \<Rightarrow> string \<Rightarrow> string \<Rightarrow> (string \<times> string list) list \<Rightarrow> bool" where
  "exact_match iter joined code variants =
     list_ex (\<lambda>v. let v_norm = normalize_text v in v_norm \<noteq> [] \<and> word_search v_norm joined \<noteq> None)
       (sort_key (\<lambda>v. - int (length v)) (iter (vlist_of code variants)))"

text \<open>The second pass: the best trigram similarity of a token and a variant.\<close>

definition best_sim :: "string list \<Rightarrow> string \<Rightarrow> (string \<times> string list) list \<Rightarrow> rat" where
  "best_sim tokens code variants =
     foldl (\<lambda>best s. if s > best then s else best) 0
       (concat (map (\<lambda>v. map (\<lambda>tok. tri_sim tok (normalize_text v)) tokens)
                 (vlist_of code variants)))"

text \<open>
  \<open>first_idx\<close>: the start of the match of the first phrase that matches, the phrases being
  those of the language followed by the English ones.
\<close>

fun first_match :: "string \<Rightarrow> string list \<Rightarrow> int" where
  "first_match joined [] = 10 ^ 9"
| "first_match joined (p # ps) =
     (case word_search (normalize_text p) joined of
        Some i \<Rightarrow> int i
      | None \<Rightarrow> first_match joined ps)"

definition first_idx :: "lexicon \<Rightarrow> string \<Rightarrow> string \<Rightarrow> string \<Rightarrow> int" where
  "first_idx LEXICON joined code key =
     (let variants = (case map_of LEXICON key of None \<Rightarrow> [] | Some v \<Rightarrow> v)
      in first_match joined (get_list variants code @ get_list variants ''en''))"

definition detect_candidates :: "set_iter \<Rightarrow> lexicon \<Rightarrow> string \<Rightarrow> string \<Rightarrow> string list" where
  "detect_candidates iter LEXICON text lang =
     (let tokens = tokenize text lang;
          joined = join '' '' tokens;
          code = lang_code lang;
          hits1 = map fst (filter (\<lambda>e. exact_match iter joined code (snd e)) LEXICON);
          hits = (if hits1 = []
                  then map fst (filter (\<lambda>e. best_sim tokens code (snd e) \<ge> TRIGRAM_MATCH_THRESHOLD)
                                  LEXICON)
                  else hits1)
      in sort_key (first_idx LEXICON joined code) (iter hits))"

section \<open>video_utils.py: the query builder\<close>

definition classify :: "string \<Rightarrow> string" where
  "classify canonical =
     (if canonical \<in> set [''espresso'', ''americano'', ''cappuccino'', ''latte'', ''flat white'',
           ''black coffee'', ''green tea'', ''herbal tea'', ''hot chocolate'', ''croissant'',
           ''sandwich''] then ''food''
      else if canonical \<in> set [''passport'', ''boarding pass'', ''check in desk'', ''gate'',
           ''carry on bag'', ''suitcase'', ''airport interior''] then ''airport''
      else if canonical \<in> set [''cough syrup'', ''pain tablets'', ''nasal spray'', ''thermometer'',
           ''vitamins'', ''clinic interior'', ''pharmacy interior''] then ''pharmacy''
      else if canonical \<in> set [''bank account'', ''debit card'', ''pin code'', ''bank transfer'',
           ''online banking'', ''bank interior''] then ''bank''
      else if canonical \<in> set [''jacket'', ''shirt'', ''trousers'', ''dress'', ''shoes'', ''belt'',
           ''fitting room'', ''cashier'', ''clothing store interior''] then ''clothing''
      else if canonical \<in> set [''bus stop'', ''park'', ''map'', ''street'', ''square'', ''bridge'',
           ''hotel exterior''] then ''directions''
      else if canonical \<in> set [''fever'', ''cough'', ''sore throat'', ''stomach ache'',
           ''prescription'', ''clinic interior''] then ''doctor''
      else if canonical \<in> set [''reservation'', ''check in'', ''key card'', ''towel'',
           ''extra pillow'', ''invoice'', ''hotel reception''] then ''hotel''
      else if canonical \<in> set [''smartphone'', ''sim card'', ''charger'', ''cable'', ''case'',
           ''screen protector'', ''electronics store''] then ''phone''
      else if canonical \<in> set [''parcel'', ''letter'', ''stamp'', ''label'', ''registered'',
           ''express delivery'', ''post office interior''] then ''post''
      else ''generic'')"

definition anchor_table :: "(string \<times> string list) list" where
  "anchor_table =
     [(''food'', [''cafe interior'', ''coffee shop interior'', ''barista making coffee'']),
      (''pharmacy'', [''pharmacy interior shelves'', ''medicine counter pharmacy'']),
      (''airport'', [''modern airport interior'', ''airport departure hall'']),
      (''bank'', [''bank counter interior'', ''atm machine'']),
      (''clothing'', [''clothing store interior'', ''fashion display'']),
      (''directions'', [''city street view'', ''town square plaza'']),
      (''doctor'', [''clinic waiting room'', ''doctor with patient'']),
      (''hotel'', [''hotel reception front desk'', ''hotel lobby'']),
      (''phone'', [''electronics store interior'', ''phone shop display'']),
      (''post'', [''post office counter'', ''mail shipping counter'']),
      (''generic'', [''people indoors'', ''object closeup''])]"

definition domain_anchor :: "string \<Rightarrow> string list" where
  "domain_anchor domain =
     (case map_of anchor_table domain of
        Some anchors \<Rightarrow> anchors
      | None \<Rightarrow> [''people indoors'', ''object closeup''])"

text \<open>
  The terms mined from the scenario files of the installation are given from outside:
  \<open>mined domain\<close> is \<open>sorted(list(_SCENARIO_TERMS.get(domain, set())))\<close>.
\<close>

type_synonym scenario_terms = "string \<Rightarrow> string list"

definition scenario_hints_for :: "scenario_terms \<Rightarrow> string \<Rightarrow> string list" where
  "scenario_hints_for mined domain = take 20 (mined domain)"

definition MAX_QUERY_TOKENS :: nat where
  "MAX_QUERY_TOKENS = 6"

definition MAX_FALLBACKS :: nat where
  "MAX_FALLBACKS = 8"

text \<open>\<open>lang if lang and lang != "auto" else guess_lang(text)\<close>\<close>

definition auto_lang :: "string \<Rightarrow> string \<Rightarrow> string" where
  "auto_lang text lang = (if lang \<noteq> [] \<and> lang \<noteq> ''auto'' then lang else guess_lang text)"

text \<open>The keyword table of \<open>sentence_to_query\<close>; the first keyword found decides.\<close>

definition domain_keywords :: "(string \<times> string) list" where
  "domain_keywords =
     [(''airport'', ''airport''), (''gate'', ''airport''), (''boarding'', ''airport''),
      (''passport'', ''airport''), (''bank'', ''bank''), (''transfer'', ''bank''), (''pin'', ''bank''),
      (''parcel'', ''post''), (''post'', ''post''), (''stamp'', ''post''),
      (''pharmacy'', ''pharmacy''), (''thermometer'', ''pharmacy''), (''vitamin'', ''pharmacy''),
      (''hotel'', ''hotel''), (''towel'', ''hotel''), (''pillow'', ''hotel''),
      (''sim'', ''phone''), (''smartphone'', ''phone''), (''charger'', ''phone''),
      (''jacket'', ''clothing''), (''dress'', ''clothing''), (''belt'', ''clothing''),
      (''shoes'', ''clothing''), (''bridge'', ''directions''), (''map'', ''directions''),
      (''street'', ''directions''), (''fever'', ''doctor''), (''cough'', ''doctor''),
      (''throat'', ''doctor'')]"

definition domain_guess_of :: "string \<Rightarrow> string" where
  "domain_guess_of heur_text =
     (case List.find (\<lambda>kd. contains heur_text (fst kd)) domain_keywords of
        Some kd \<Rightarrow> snd kd
      | None \<Rightarrow> ''generic'')"

definition sentence_to_query ::
  "set_iter \<Rightarrow> lexicon \<Rightarrow> scenario_terms \<Rightarrow> string \<Rightarrow> string \<Rightarrow> nat \<Rightarrow> string" where
  "sentence_to_query iter LEXICON mined text lang max_words =
     (let auto = auto_lang text lang;
          text_norm = clean_modifiers iter text;
          tokens = tokenize text_norm auto;
          hits = detect_candidates iter LEXICON text_norm auto
      in case hits of
           first # _ \<Rightarrow>
             (case map_of QUERY_TEMPLATES first of Some tc \<Rightarrow> fst tc | None \<Rightarrow> first)
         | [] \<Rightarrow>
             (let informative = take max_words tokens;
                  domain_guess = domain_guess_of (join '' '' tokens);
                  anchors = domain_anchor domain_guess;
                  hints = scenario_hints_for mined domain_guess;
                  phrase0 = strip (join '' '' (informative @ take 1 anchors));
                  phrase = (case hints of
                              [] \<Rightarrow> phrase0
                            | h # _ \<Rightarrow> if phrase0 \<noteq> [] then phrase0 @ '' '' @ h else h)
              in if phrase \<noteq> [] then phrase else hd anchors))"

text \<open>The local values of \<open>sentence_to_query_extras\<close>, one definition each.\<close>

definition extras_tokens :: "set_iter \<Rightarrow> string \<Rightarrow> string \<Rightarrow> string list" where
  "extras_tokens iter text lang = tokenize (clean_modifiers iter text) (auto_lang text lang)"

definition extras_hits :: "set_iter \<Rightarrow> lexicon \<Rightarrow> string \<Rightarrow> string \<Rightarrow> string list" where
  "extras_hits iter LEXICON text lang =
     detect_candidates iter LEXICON (join '' '' (extras_tokens iter text lang)) (auto_lang text lang)"

definition extras_primary_cat :: "set_iter \<Rightarrow> lexicon \<Rightarrow> string \<Rightarrow> string \<Rightarrow> string option" where
  "extras_primary_cat iter LEXICON text lang =
     (case extras_hits iter LEXICON text lang of
        [] \<Rightarrow> None
      | first # _ \<Rightarrow> (case map_of QUERY_TEMPLATES first of Some tc \<Rightarrow> snd tc | None \<Rightarrow> None))"

definition token_domain :: "string list \<Rightarrow> string" where
  "token_domain tokens =
     (if list_ex (\<lambda>w. w \<in> set tokens) [''passport'', ''gate'', ''airport'', ''boarding''] then ''airport''
      else if list_ex (\<lambda>w. w \<in> set tokens) [''pharmacy'', ''thermometer'', ''vitamin''] then ''pharmacy''
      else if list_ex (\<lambda>w. w \<in> set tokens) [''bank'', ''transfer'', ''pin''] then ''bank''
      else if list_ex (\<lambda>w. w \<in> set tokens) [''jacket'', ''dress'', ''belt'', ''shoes'', ''fitting'']
        then ''clothing''
      else if list_ex (\<lambda>w. w \<in> set tokens) [''bus'', ''bridge'', ''street'', ''map'', ''square'']
        then ''directions''
      else if list_ex (\<lambda>w. w \<in> set tokens) [''fever'', ''cough'', ''throat'', ''stomach''] then ''doctor''
      else if list_ex (\<lambda>w. w \<in> set tokens) [''hotel'', ''towel'', ''pillow'', ''invoice''] then ''hotel''
      else if list_ex (\<lambda>w. w \<in> set tokens) [''sim'', ''smartphone'', ''charger'', ''cable'', ''case'']
        then ''phone''
      else if list_ex (\<lambda>w. w \<in> set tokens) [''parcel'', ''stamp'', ''post''] then ''post''
      else ''generic'')"

definition extras_domain :: "set_iter \<Rightarrow> lexicon \<Rightarrow> string \<Rightarrow> string \<Rightarrow> string" where
  "extras_domain iter LEXICON text lang =
     (case extras_hits iter LEXICON text lang of
        first # _ \<Rightarrow> classify first
      | [] \<Rightarrow> token_domain (extras_tokens iter text lang))"

text \<open>
  \<open>eng_like = " ".join([w for w in tokens if re.match(r"[a-z0-9]+$", w)])\<close>
\<close>

definition eng_like_of :: "string list \<Rightarrow> string" where
  "eng_like_of tokens =
     join '' '' (filter (\<lambda>w. w \<noteq> [] \<and> list_all (\<lambda>c. c \<in> set ''abcdefghijklmnopqrstuvwxyz0123456789'') w)
                   tokens)"

text \<open>\<open>if p not in pairs: pairs.append(p)\<close>\<close>

type_synonym query_pair = "string \<times> string option"

definition add_absent :: "query_pair list \<Rightarrow> query_pair \<Rightarrow> query_pair list" where
  "add_absent pairs p = (if p \<in> set pairs then pairs else pairs @ [p])"

text \<open>\<open>q = f"{eng_like} {a}".strip() if eng_like else a\<close>\<close>

definition with_eng_like :: "string \<Rightarrow> string \<Rightarrow> string" where
  "with_eng_like eng_like a = (if eng_like \<noteq> [] then strip (eng_like @ '' '' @ a) else a)"

text \<open>The list \<open>pairs\<close> as it stands before the removal of duplicates.\<close>

definition query_pairs :: "set_iter \<Rightarrow> lexicon \<Rightarrow> scenario_terms \<Rightarrow> string \<Rightarrow> string \<Rightarrow> query_pair list" where
  "query_pairs iter LEXICON mined text lang =
     (let auto = auto_lang text lang;
          primary = sentence_to_query iter LEXICON mined text auto MAX_QUERY_TOKENS;
          tokens = extras_tokens iter text lang;
          hits = extras_hits iter LEXICON text lang;
          primary_cat = extras_primary_cat iter LEXICON text lang;
          domain = extras_domain iter LEXICON text lang;
          pairs1 = [(primary, primary_cat)];
          pairs2 = foldl add_absent pairs1
                     (map (\<lambda>c. case map_of QUERY_TEMPLATES c of Some tc \<Rightarrow> tc | None \<Rightarrow> (c, primary_cat))
                        (take 3 hits));
          eng_like = eng_like_of tokens;
          pairs3 = (if eng_like \<noteq> [] then add_absent pairs2 (eng_like, primary_cat) else pairs2);
          anchors = domain_anchor domain;
          hints = scenario_hints_for mined domain;
          pairs4 = foldl add_absent pairs3 (map (\<lambda>a. (with_eng_like eng_like a, primary_cat)) anchors);
          pairs5 = foldl add_absent pairs4
                     (map (\<lambda>h. (with_eng_like eng_like h, primary_cat)) (take 3 hints));
          generic = domain_anchor domain @ scenario_hints_for mined domain
      in foldl add_absent pairs5 (map (\<lambda>q. (q, primary_cat)) generic))"

text \<open>\<open>key = (q.strip().lower(), cat)\<close>\<close>

definition plan_key :: "query_pair \<Rightarrow> query_pair" where
  "plan_key p = (lower (strip (fst p)), snd p)"

text \<open>The loop that fills \<open>uniq\<close>, with \<open>seen\<close> and \<open>uniq\<close> threaded through.\<close>

fun uniq_loop :: "query_pair list \<Rightarrow> query_pair set \<Rightarrow> query_pair list \<Rightarrow> query_pair list" where
  "uniq_loop [] seen uniq = uniq"
| "uniq_loop (p # rest) seen uniq =
     (let fresh = (plan_key p \<notin> seen \<and> strip (fst p) \<noteq> []);
          uniq' = (if fresh then uniq @ [p] else uniq);
          seen' = (if fresh then insert (plan_key p) seen else seen)
      in if length uniq' \<ge> 1 + MAX_FALLBACKS then uniq' else uniq_loop rest seen' uniq')"

definition sentence_to_query_extras ::
  "set_iter \<Rightarrow> lexicon \<Rightarrow> scenario_terms \<Rightarrow> string \<Rightarrow> string \<Rightarrow> query_pair list \<times> string option" where
  "sentence_to_query_extras iter LEXICON mined text lang =
     (uniq_loop (query_pairs iter LEXICON mined text lang) {} [],
      extras_primary_cat iter LEXICON text lang)"

text \<open>
  Two of the orders in which Python may walk a set, depending on the hashes of the process:
  the order of insertion and its reverse.
\<close>

definition walk_in_order :: set_iter where
  "walk_in_order xs = remdups xs"

definition walk_reversed :: set_iter where
  "walk_reversed xs = rev (remdups xs)"

section \<open>Properties of the audio builder\<close>



lemma concat_replicate_snoc:
  "concat (replicate n xs) @ xs = xs @ concat (replicate n xs)"
  by (induction n) simp_all

lemma repeat_fold_Suc:
  "foldl (\<lambda>built r. (if r > 0 then built @ gap else built) @ seg_one) [] [0..<Suc n]
     = seg_one @ concat (replicate n (gap @ seg_one))"
proof (induction n)
  case 0
  then show ?case by simp
next
  case (Suc n)
  have "concat (replicate n (gap @ seg_one)) @ gap @ seg_one
          = concat (replicate (Suc n) (gap @ seg_one))"
    using concat_replicate_snoc [of n "gap @ seg_one"] by simp
  with Suc show ?case by simp
qed

lemma repeat_with_gap_between:
  assumes "1 \<le> r"
  shows "repeat_with_gap seg_one gap r = seg_one @ concat (replicate (nat r - 1) (gap @ seg_one))"
proof -
  obtain n where n: "nat r = Suc n"
    using assms by (cases "nat r") auto
  show ?thesis
    unfolding repeat_with_gap_def n silent_def using repeat_fold_Suc [of gap seg_one n] by simp
qed

lemma len_repeat_with_gap:
  assumes "1 \<le> r"
  shows "len (repeat_with_gap seg_one gap r) = r * len seg_one + (r - 1) * len gap"
proof -
  obtain n where n: "nat r = Suc n"
    using assms by (cases "nat r") auto
  then have r: "r = int n + 1"
    using assms by linarith
  show ?thesis
    by (simp add: repeat_with_gap_between [OF assms] n len_def length_concat sum_list_replicate)
      (simp add: r algebra_simps)
qed






lemma built_of_cue_unfitted:
  "end_ms_of c \<le> start_ms_of c \<Longrightarrow>
   built_of_cue safe_tts_to_segment pause_rep_ms c =
     repeat_with_gap (safe_tts_to_segment (text_of c) (lang_of c))
       (silent (max 0 pause_rep_ms)) (repeat_of c)"
  by (simp add: built_of_cue_def Let_def target_ms_of_def fit_to_target_def normalize_seg_def)
section \<open>Properties of the draft timeline\<close>


















section \<open>Properties of the grid snap\<close>

lemma round_to_grid_bounds:
  assumes "0 < g"
  shows "(x div g) * g \<le> round_to_grid tie g x" and "round_to_grid tie g x \<le> (x div g + 1) * g"
  using assms by (auto simp: round_to_grid_def Let_def distrib_right split: tie_rule.splits)

lemma round_to_grid_same_quotient:
  assumes g: "0 < g" and q: "x div g = y div g" and r: "x mod g \<le> y mod g"
  shows "round_to_grid tie g x \<le> round_to_grid tie g y"
  using g r unfolding round_to_grid_def Let_def q
  by (cases tie) (auto simp: distrib_right)

lemma round_to_grid_mono:
  assumes g: "0 < g" and xy: "x \<le> y"
  shows "round_to_grid tie g x \<le> round_to_grid tie g y"
proof (cases "x div g = y div g")
  case True
  have "x mod g = x - x div g * g" and "y mod g = y - y div g * g"
    by (simp_all add: minus_div_mult_eq_mod)
  with True xy have "x mod g \<le> y mod g"
    by simp
  with g True show ?thesis
    by (rule round_to_grid_same_quotient)
next
  case False
  have "x div g \<le> y div g"
    using xy g by (simp add: zdiv_mono1)
  with False have "x div g + 1 \<le> y div g"
    by simp
  then have "(x div g + 1) * g \<le> (y div g) * g"
    using g by (simp add: mult_right_mono)
  with round_to_grid_bounds [OF g, where x = x and tie = tie]
    round_to_grid_bounds [OF g, where x = y and tie = tie]
  show ?thesis by linarith
qed

lemma round_to_ass_grid_mono:
  assumes "\<And>tie g. imp = Imported tie g \<Longrightarrow> 0 < g" and "x \<le> y"
  shows "round_to_ass_grid imp x \<le> round_to_ass_grid imp y"
  using assms by (cases imp) (simp_all add: round_to_grid_mono)

lemma snap_cues_nth:
  "snap_cues imp cues = Inr cues' \<Longrightarrow>
   length cues' = length cues \<and> (\<forall>i<length cues. snap_cue imp (cues ! i) = Inr (cues' ! i))"
proof (induction cues arbitrary: cues')
  case Nil
  then show ?case by simp
next
  case (Cons c cs)
  then obtain c' cs' where c': "snap_cue imp c = Inr c'" and cs': "snap_cues imp cs = Inr cs'"
    and eq: "cues' = c' # cs'"
    by (auto split: sum.splits)
  from Cons.IH [OF cs'] c' eq show ?case
    by (auto simp: nth_Cons split: nat.splits)
qed

text \<open>
  C4. When the snap is enabled and goes through, every cue that had \<open>start < end\<close> before
  has \<open>start \<le> end\<close> after it, its times being the rounded ones. It holds for the identity
  that \<open>main.py\<close> falls back to and for rounding to the nearest point of a grid of any
  positive unit, under each tie rule.
\<close>

theorem snap_never_inverts:
  assumes "\<And>tie g. imp = Imported tie g \<Longrightarrow> 0 < g"
    and "align_to_grid True imp cues_src = Inr snapped"
    and "i < length cues_src"
    and "cue_start (cues_src ! i) = Some s" and "cue_end (cues_src ! i) = Some e"
    and "s < e"
  shows "i < length snapped
       \<and> cue_start (snapped ! i) = Some (round_to_ass_grid imp s)
       \<and> cue_end (snapped ! i) = Some (round_to_ass_grid imp e)
       \<and> round_to_ass_grid imp s \<le> round_to_ass_grid imp e"
proof -
  from assms(2) have "snap_cues imp cues_src = Inr snapped"
    by (simp add: align_to_grid_def)
  from snap_cues_nth [OF this] assms(3)
  have len: "i < length snapped" and sn: "snap_cue imp (cues_src ! i) = Inr (snapped ! i)"
    by simp_all
  from sn assms(4,5) have "snapped ! i = (cues_src ! i)\<lparr>cue_start := Some (round_to_ass_grid imp s),
      cue_end := Some (round_to_ass_grid imp e)\<rparr>"
    by (simp add: snap_cue_def)
  moreover have "round_to_ass_grid imp s \<le> round_to_ass_grid imp e"
    using round_to_ass_grid_mono [of imp s e] assms(1,6) by simp
  ultimately show ?thesis
    using len by simp
qed

theorem snap_never_inverts_witness:
  "0 < (10::int)
   \<and> align_to_grid True (Imported HalfEven 10)
        [\<lparr>cue_start = Some 1234, cue_end = Some 1236, cue_text = Some ''hello'',
          cue_lang = Some ''en'', cue_repeat = Some 1, cue_is_primary = Some True,
          cue_tags = Some []\<rparr>]
      = Inr [\<lparr>cue_start = Some 1230, cue_end = Some 1240, cue_text = Some ''hello'',
          cue_lang = Some ''en'', cue_repeat = Some 1, cue_is_primary = Some True,
          cue_tags = Some []\<rparr>]
   \<and> (1234::int) < 1236
   \<and> round_to_ass_grid (Imported HalfEven 10) 1234 \<le> round_to_ass_grid (Imported HalfEven 10) 1236"
proof -
  let ?c = "\<lparr>cue_start = Some 1234, cue_end = Some 1236, cue_text = Some ''hello'',
          cue_lang = Some ''en'', cue_repeat = Some 1, cue_is_primary = Some True,
          cue_tags = Some []\<rparr>"
  let ?c' = "\<lparr>cue_start = Some 1230, cue_end = Some 1240, cue_text = Some ''hello'',
          cue_lang = Some ''en'', cue_repeat = Some 1, cue_is_primary = Some True,
          cue_tags = Some []\<rparr>"
  have g: "\<And>tie g. Imported HalfEven 10 = Imported tie g \<Longrightarrow> 0 < g"
    by simp
  have a: "align_to_grid True (Imported HalfEven 10) [?c] = Inr [?c']"
    by (simp add: align_to_grid_def snap_cue_def round_to_grid_def)
  have "round_to_ass_grid (Imported HalfEven 10) 1234 \<le> round_to_ass_grid (Imported HalfEven 10) 1236"
    using snap_never_inverts [OF g a, where i = 0 and s = 1234 and e = 1236] by simp
  with a show ?thesis by simp
qed

section \<open>Properties of the slideshow\<close>

lemma compute_visual_spans_nth:
  "map cue_start cues = map Some starts \<Longrightarrow>
   \<exists>spans. compute_visual_spans cues total_audio_ms = Inr spans
     \<and> length spans = length starts
     \<and> (\<forall>i<length starts. spans ! i =
           (starts ! i, if Suc i < length starts then max (starts ! i) (starts ! Suc i)
                        else total_audio_ms))"
proof (induction cues total_audio_ms arbitrary: starts rule: compute_visual_spans.induct)
  case (1 total_audio_ms)
  then show ?case by simp
next
  case (2 c total_audio_ms)
  then show ?case by (cases starts) auto
next
  case (3 c c' cs total_audio_ms)
  from "3.prems" obtain s tl1 where st1: "starts = s # tl1"
    and c: "cue_start c = Some s" and rest1: "map cue_start (c' # cs) = map Some tl1"
    by (auto simp: Cons_eq_map_conv)
  from rest1 obtain s' ss where st2: "tl1 = s' # ss" and c': "cue_start c' = Some s'"
    by (auto simp: Cons_eq_map_conv)
  have st: "starts = s # s' # ss" and rest: "map cue_start (c' # cs) = map Some (s' # ss)"
    using st1 st2 rest1 by simp_all
  from "3.IH" [OF c c' rest] obtain spans where
    sp: "compute_visual_spans (c' # cs) total_audio_ms = Inr spans"
    and ln: "length spans = length (s' # ss)"
    and nth: "\<forall>i<length (s' # ss). spans ! i =
           ((s' # ss) ! i, if Suc i < length (s' # ss) then max ((s' # ss) ! i) ((s' # ss) ! Suc i)
                        else total_audio_ms)"
    by (elim exE conjE)
  have "compute_visual_spans (c # c' # cs) total_audio_ms = Inr ((s, max s s') # spans)"
    using c c' sp by simp
  moreover have "length ((s, max s s') # spans) = length starts"
    using ln st by simp
  moreover have "\<forall>i<length starts. ((s, max s s') # spans) ! i =
           (starts ! i, if Suc i < length starts then max (starts ! i) (starts ! Suc i)
                        else total_audio_ms)"
  proof (intro allI impI)
    fix i assume i: "i < length starts"
    show "((s, max s s') # spans) ! i =
           (starts ! i, if Suc i < length starts then max (starts ! i) (starts ! Suc i)
                        else total_audio_ms)"
    proof (cases i)
      case 0
      then show ?thesis by (simp add: st)
    next
      case (Suc j)
      with i st have "j < length (s' # ss)" by simp
      with nth have "spans ! j =
           ((s' # ss) ! j, if Suc j < length (s' # ss) then max ((s' # ss) ! j) ((s' # ss) ! Suc j)
                        else total_audio_ms)"
        by blast
      then show ?thesis by (simp add: Suc st)
    qed
  qed
  ultimately show ?case by (intro exI conjI)
qed

lemma snd_segment_of: "snd (segment_of path_exists fps p) = span_frames fps (fst p)"
  by (simp add: segment_of_def split: option.splits)

lemma span_frames_eq_spec_frame_count:
  assumes a: "500 < (e - s) * fps" and f: "0 \<le> fps"
  shows "span_frames fps (s, e) = spec_frame_count fps (s, e)"
proof -
  define d where "d = (e - s) * fps"
  have pos: "0 < e - s"
  proof (rule ccontr)
    assume "\<not> 0 < e - s"
    then have "e - s \<le> 0" by simp
    then have "(e - s) * fps \<le> 0"
      using f by (rule mult_nonpos_nonneg)
    with a show False by simp
  qed
  then have m: "max 0 (e - s) = e - s" by simp
  have d: "500 < d" using a by (simp add: d_def)
  have "1 \<le> py_round_div d 1000"
  proof (cases "1000 \<le> d")
    case True
    then have "1 \<le> d div 1000" by simp
    then show ?thesis by (auto simp: py_round_div_def Let_def)
  next
    case False
    with d have "d div 1000 = 0" "d mod 1000 = d"
      by simp_all
    with d show ?thesis by (simp add: py_round_div_def Let_def)
  qed
  then show ?thesis
    by (simp add: span_frames_def spec_frame_count_def m Let_def d_def)
qed

text \<open>
  C7, as the code has it. Cue \<open>i\<close> is shown from its start to the start of cue \<open>i + 1\<close>, or
  to its own start when the next cue starts earlier; the last cue is shown up to the total
  audio length. The clip of a span has \<open>max(1, round(max(0, duration_ms) * fps / 1000))\<close>
  frames. For the starts 0, 4300, 9000, a total of 12000 ms and 30 frames per second the
  spans are [0, 4300), [4300, 9000), [9000, 12000) and the clips have 129, 141 and 90
  frames.
\<close>

theorem visual_spans_and_frames:
  assumes "map cue_start cues = map Some starts"
    and "length per_sentence_images = length cues"
  shows "\<exists>spans. compute_visual_spans cues total_audio_ms = Inr spans
       \<and> length spans = length cues
       \<and> (\<forall>i<length cues. spans ! i =
             (starts ! i, if Suc i < length cues then max (starts ! i) (starts ! Suc i)
                          else total_audio_ms))
       \<and> (\<exists>segs. build_slideshow_video_cfr path_exists cues per_sentence_images total_audio_ms fps
                   = Inr segs
            \<and> map snd segs =
                map (\<lambda>sp. max 1 (py_round_div (max 0 (snd sp - fst sp) * fps) 1000)) spans)
       \<and> compute_visual_spans [cue_at 0, cue_at 4300, cue_at 9000] 12000
           = Inr [(0, 4300), (4300, 9000), (9000, 12000)]
       \<and> map (span_frames 30) [(0, 4300), (4300, 9000), (9000, 12000)] = [129, 141, 90]"
proof -
  have n: "length starts = length cues"
    using assms(1) by (metis length_map)
  from compute_visual_spans_nth [OF assms(1), of total_audio_ms] obtain spans where
    sp: "compute_visual_spans cues total_audio_ms = Inr spans"
    and ln: "length spans = length cues"
    and nth: "\<forall>i<length cues. spans ! i =
             (starts ! i, if Suc i < length cues then max (starts ! i) (starts ! Suc i)
                          else total_audio_ms)"
    unfolding n by (elim exE conjE)
  have z: "map fst (zip spans per_sentence_images) = spans"
    using ln assms(2) by simp
  have "map snd (map (segment_of path_exists fps) (zip spans per_sentence_images))
        = map (span_frames fps) (map fst (zip spans per_sentence_images))"
    by (simp add: snd_segment_of)
  then have fr: "map snd (map (segment_of path_exists fps) (zip spans per_sentence_images))
        = map (\<lambda>sp. max 1 (py_round_div (max 0 (snd sp - fst sp) * fps) 1000)) spans"
    unfolding z by (simp add: span_frames_def Let_def)
  have b: "build_slideshow_video_cfr path_exists cues per_sentence_images total_audio_ms fps
        = Inr (map (segment_of path_exists fps) (zip spans per_sentence_images))"
    by (simp add: build_slideshow_video_cfr_def sp)
  have ex1: "compute_visual_spans [cue_at 0, cue_at 4300, cue_at 9000] 12000
           = Inr [(0, 4300), (4300, 9000), (9000, 12000)]"
    by (simp add: cue_at_def)
  have ex2: "map (span_frames 30) [(0, 4300), (4300, 9000), (9000, 12000)] = [129, 141, 90]"
    by (simp add: span_frames_def py_round_div_def)
  have "\<exists>segs. build_slideshow_video_cfr path_exists cues per_sentence_images total_audio_ms fps
                   = Inr segs
            \<and> map snd segs =
                map (\<lambda>sp. max 1 (py_round_div (max 0 (snd sp - fst sp) * fps) 1000)) spans"
    using b fr by (intro exI conjI)
  with sp ln nth ex1 ex2 show ?thesis
    by (intro exI [of _ spans] conjI)
qed

theorem visual_spans_and_frames_witness:
  "map cue_start [cue_at 0, cue_at 4300, cue_at 9000] = map Some [0, 4300, 9000]
   \<and> length [Some ''a.jpg'', None, Some ''c.jpg''] = length [cue_at 0, cue_at 4300, cue_at 9000]
   \<and> (\<exists>segs. build_slideshow_video_cfr (\<lambda>p. p = ''a.jpg'') [cue_at 0, cue_at 4300, cue_at 9000]
                [Some ''a.jpg'', None, Some ''c.jpg''] 12000 30 = Inr segs
            \<and> map snd segs = [129, 141, 90])"
proof -
  have 1: "map cue_start [cue_at 0, cue_at 4300, cue_at 9000] = map Some [0, 4300, 9000]"
    by (simp add: cue_at_def)
  have 2: "length [Some ''a.jpg'', None, Some ''c.jpg''] = length [cue_at 0, cue_at 4300, cue_at 9000]"
    by simp
  from visual_spans_and_frames [OF 1 2, of 12000 "\<lambda>p. p = ''a.jpg''" 30]
  obtain spans segs where
    sp: "compute_visual_spans [cue_at 0, cue_at 4300, cue_at 9000] 12000 = Inr spans"
    and b: "build_slideshow_video_cfr (\<lambda>p. p = ''a.jpg'') [cue_at 0, cue_at 4300, cue_at 9000]
                [Some ''a.jpg'', None, Some ''c.jpg''] 12000 30 = Inr segs"
    and fr: "map snd segs = map (\<lambda>sp. max 1 (py_round_div (max 0 (snd sp - fst sp) * 30) 1000)) spans"
    and ex: "compute_visual_spans [cue_at 0, cue_at 4300, cue_at 9000] 12000
           = Inr [(0, 4300), (4300, 9000), (9000, 12000)]"
    by (elim exE conjE)
  from sp ex have "spans = [(0, 4300), (4300, 9000), (9000, 12000)]" by simp
  with fr have "map snd segs = [129, 141, 90]"
    by (simp add: py_round_div_def)
  with b have "\<exists>segs. build_slideshow_video_cfr (\<lambda>p. p = ''a.jpg'') [cue_at 0, cue_at 4300, cue_at 9000]
                [Some ''a.jpg'', None, Some ''c.jpg''] 12000 30 = Inr segs
            \<and> map snd segs = [129, 141, 90]"
    by (intro exI conjI)
  with 1 2 show ?thesis by (intro conjI)
qed

text \<open>
  C7 as the specification words it gives a span of 10 ms, at 30 frames per second,
  \<open>round(0.3) = 0\<close> frames; the slideshow renders it with one frame.
\<close>

theorem short_span_frames_counterexample:
  "compute_visual_spans [cue_at 0, cue_at 10] 1000 = Inr [(0, 10), (10, 1000)]
   \<and> span_frames 30 (0, 10) = 1
   \<and> spec_frame_count 30 (0, 10) = 0"
  by (simp add: cue_at_def span_frames_def spec_frame_count_def py_round_div_def)
section \<open>Properties of the download loop\<close>

lemma download_loop_distinct:
  "distinct downloads \<Longrightarrow> set downloads \<subseteq> seen_src \<Longrightarrow>
   distinct (snd (download_loop w query n items out seen_src downloads))"
proof (induction items arbitrary: out seen_src downloads)
  case Nil
  then show ?case by simp
next
  case (Cons item rest)
  show ?case
  proof (cases "item_src item \<in> seen_src")
    case True
    with Cons show ?thesis by simp
  next
    case False
    with Cons.prems have d: "distinct (downloads @ [item_src item])"
      and s: "set (downloads @ [item_src item]) \<subseteq> insert (item_src item) seen_src"
      by auto
    show ?thesis
      using False d Cons.IH [OF d s] by (simp add: Let_def)
  qed
qed

lemma download_loop_from_items:
  "set (snd (download_loop w query n items out seen_src downloads))
     \<subseteq> set downloads \<union> item_src ` set items"
proof (induction items arbitrary: out seen_src downloads)
  case Nil
  then show ?case by simp
next
  case (Cons item rest)
  show ?case
    using Cons.IH [of out seen_src downloads]
      Cons.IH [of "case download_image w (item_src item) query (item_provider item) of
                       Some p \<Rightarrow> out @ [p] | None \<Rightarrow> out" "insert (item_src item) seen_src"
                  "downloads @ [item_src item]"]
    by (auto simp: Let_def)
qed

lemma distinct_count_le_1: "distinct xs \<Longrightarrow> length (filter (\<lambda>x. x = u) xs) \<le> 1"
  by (induction xs) (auto simp: filter_empty_conv)

lemma search_both_ranked_descending:
  "sorted (map (\<lambda>r. - item_score r) (search_both_ranked iter w query category))"
  by (simp add: search_both_ranked_def sort_by_score_def Let_def)

text \<open>
  C8. Whatever the two providers answer, the merged ranking is in descending order of
  score, and the source URLs that one call of \<open>search_and_download_best\<close> hands to the
  download are pairwise distinct and come from the merged ranking, so no source URL is
  downloaded twice, also when both providers list it.
\<close>

theorem downloads_distinct_by_source_url:
  "sorted (map (\<lambda>r. - item_score r) (search_both_ranked iter w query category))
   \<and> distinct (snd (search_and_download_best iter w query n category))
   \<and> length (filter (\<lambda>x. x = url) (snd (search_and_download_best iter w query n category))) \<le> 1
   \<and> set (snd (search_and_download_best iter w query n category))
        \<subseteq> item_src ` set (search_both_ranked iter w query category)"
proof -
  have d: "distinct (snd (search_and_download_best iter w query n category))"
    using download_loop_distinct [of "[]" "{}" w query n _ "[]"]
    by (simp add: search_and_download_best_def Let_def)
  have s: "set (snd (search_and_download_best iter w query n category))
        \<subseteq> item_src ` set (search_both_ranked iter w query category)"
    using download_loop_from_items [of w query n "search_both_ranked iter w query category" "[]" "{}" "[]"]
    by (simp add: search_and_download_best_def Let_def)
  from search_both_ranked_descending [of iter w query category] d s
    distinct_count_le_1 [OF d, of url]
  show ?thesis
    by (intro conjI)
qed

text \<open>
  Both providers answer with the same source URL, and two images are asked for: the URL is
  downloaded once, for the candidate ranked first.
\<close>

lemma shared_source_url_downloaded_once:
  "search_and_download_best remdups
     \<lparr>pix_key = Some ''k1'', uns_key = Some ''k2'',
      pixabay_api = (\<lambda>q c. Some [\<lparr>largeImageURL = Some ''https://img.example/cup.jpg'',
                                      webformatURL = None, hit_tags = Some ''cup, table'',
                                      hit_type = Some ''photo''\<rparr>]),
      unsplash_api = (\<lambda>q. Some [\<lparr>url_regular = Some ''https://img.example/cup.jpg'',
                                     url_full = None, url_raw = None, tag_titles = [''cup''],
                                     alt_description = None, description = None, likes = 20\<rparr>]),
      fetch_ok = (\<lambda>u. True)\<rparr>
     ''cup'' 2 None
   = ([''unsplash|cup|https://img.example/cup.jpg''], [''https://img.example/cup.jpg''])"
  by code_simp

section \<open>Properties of the scores\<close>

lemma tri_sim_nonneg: "0 \<le> tri_sim a b"
  by (simp add: tri_sim_def Let_def)

lemma overlap_of_nonneg: "0 \<le> overlap_of tgs raw"
  by (simp add: overlap_of_def)

lemma tri_of_nonneg: "0 \<le> tri_of iter tgs raw"
  by (simp add: tri_of_def)

lemma score_hit_nonneg: "0 \<le> score_hit iter tgs raw"
  using overlap_of_nonneg [of tgs raw] tri_of_nonneg [of iter tgs raw]
  by (simp add: score_hit_def Let_def)

lemma score_hit_no_tokens: "tag_tokens_of tgs = [] \<Longrightarrow> score_hit iter tgs raw = 0"
  by (simp add: score_hit_def)

lemma score_hit_no_boost:
  "tri_of iter tgs raw < TRIGRAM_TAG_THRESHOLD \<Longrightarrow> score_hit iter tgs raw = overlap_of tgs raw"
  by (auto simp: score_hit_def Let_def overlap_of_def)

lemma domain_keyword_boost_pos: "0 \<le> domain_keyword_boost text"
  by (simp add: domain_keyword_boost_def Let_def)

lemma pixabay_item_score:
  "pixabay_item iter raw h = Some r \<Longrightarrow>
   item_tags r = (case hit_tags h of None \<Rightarrow> [] | Some t \<Rightarrow> t)
   \<and> item_score r = score_hit iter (item_tags r) raw * domain_keyword_boost (item_tags r)
               * (if hit_type h = Some ''photo'' then 105 / 100 else 1)"
  by (auto simp: pixabay_item_def Let_def split: option.splits if_splits)

lemma unsplash_item_score:
  "unsplash_item iter raw ph = Some r \<Longrightarrow>
   item_tags r = unsplash_tags ph
   \<and> item_score r = score_hit iter (item_tags r) raw * domain_keyword_boost (item_tags r)
               * (1 + of_int (min (likes ph) 200) / 500)"
  by (auto simp: unsplash_item_def Let_def split: option.splits)

lemma pixabay_item_nonneg: "pixabay_item iter raw h = Some r \<Longrightarrow> 0 \<le> item_score r"
  using score_hit_nonneg [of iter "item_tags r" raw] domain_keyword_boost_pos [of "item_tags r"]
  by (auto dest!: pixabay_item_score)

lemma unsplash_item_nonneg:
  assumes "unsplash_item iter raw ph = Some r" and "0 \<le> likes ph"
  shows "0 \<le> item_score r"
proof -
  have "(0::rat) \<le> 1 + of_int (min (likes ph) 200) / 500"
    using assms(2) by simp
  with score_hit_nonneg [of iter "item_tags r" raw] domain_keyword_boost_pos [of "item_tags r"]
    unsplash_item_score [OF assms(1)] show ?thesis
    by simp
qed

lemma set_sort_by_score: "set (sort_by_score rs) = set rs"
  by (simp add: sort_by_score_def)

lemma set_map_filter_Some:
  "set (List.map_filter f xs) = {y. \<exists>x\<in>set xs. f x = Some y}"
  by (induction xs) (auto simp: List.map_filter_simps split: option.splits)

lemma set_pixabay_ranked:
  "set (pixabay_ranked iter (Some hits) query)
     = {r. \<exists>h\<in>set hits. pixabay_item iter (tokenize (normalize_text query) ''en'') h = Some r}"
  by (simp add: pixabay_ranked_def Let_def set_sort_by_score set_map_filter_Some)

lemma set_unsplash_ranked:
  "set (unsplash_ranked iter (Some results) query)
     = {r. \<exists>ph\<in>set results. unsplash_item iter (tokenize (normalize_text query) ''en'') ph = Some r}"
  by (simp add: unsplash_ranked_def Let_def set_sort_by_score set_map_filter_Some)
text \<open>
  C9. For one query, a Pixabay candidate and an Unsplash candidate whose tag tokens give
  the same overlap, whose trigram similarity stays below the tag threshold, whose tag text
  has none of the domain keywords, the Pixabay one not being of type photo and the
  Unsplash one having no likes, are both ranked and receive the same score.
\<close>

theorem equal_overlap_equal_score:
  fixes query :: string
  defines "raw \<equiv> tokenize (normalize_text query) ''en''"
  assumes "h \<in> set hits" and "pixabay_item iter raw h = Some rp"
    and "ph \<in> set results" and "unsplash_item iter raw ph = Some ru"
    and "overlap_of (item_tags rp) raw = overlap_of (item_tags ru) raw"
    and "tri_of iter (item_tags rp) raw < TRIGRAM_TAG_THRESHOLD"
    and "tri_of iter (item_tags ru) raw < TRIGRAM_TAG_THRESHOLD"
    and "domain_keyword_boost (item_tags rp) = 1"
    and "domain_keyword_boost (item_tags ru) = 1"
    and "hit_type h \<noteq> Some ''photo''"
    and "likes ph = 0"
  shows "rp \<in> set (pixabay_ranked iter (Some hits) query)
       \<and> ru \<in> set (unsplash_ranked iter (Some results) query)
       \<and> item_score rp = item_score ru"
proof -
  have 1: "rp \<in> set (pixabay_ranked iter (Some hits) query)"
    using assms(2,3) unfolding set_pixabay_ranked raw_def by blast
  have 2: "ru \<in> set (unsplash_ranked iter (Some results) query)"
    using assms(4,5) unfolding set_unsplash_ranked raw_def by blast
  have "item_score rp = overlap_of (item_tags rp) raw"
    using pixabay_item_score [OF assms(3)] assms(7,9,11) by (simp add: score_hit_no_boost)
  moreover have "item_score ru = overlap_of (item_tags ru) raw"
    using unsplash_item_score [OF assms(5)] assms(8,10,12) by (simp add: score_hit_no_boost)
  ultimately have "item_score rp = item_score ru"
    using assms(6) by simp
  with 1 2 show ?thesis by (intro conjI)
qed

theorem equal_overlap_equal_score_witness:
  "pixabay_item remdups (tokenize (normalize_text ''Red cup!'') ''en'')
      \<lparr>largeImageURL = Some ''https://pixabay.example/cup.jpg'', webformatURL = None,
        hit_tags = Some ''cup, porcelain, kitchenware'', hit_type = Some ''illustration''\<rparr>
    = Some \<lparr>item_provider = ''pixabay'', item_score = 1 / 2,
         item_src = ''https://pixabay.example/cup.jpg'',
         item_tags = ''cup, porcelain, kitchenware''\<rparr>
   \<and> unsplash_item remdups (tokenize (normalize_text ''Red cup!'') ''en'')
      \<lparr>url_regular = Some ''https://unsplash.example/cup'', url_full = None, url_raw = None,
        tag_titles = [''cup'', ''table''], alt_description = Some ''white cup on wooden table'',
        description = None, likes = 0\<rparr>
    = Some \<lparr>item_provider = ''unsplash'', item_score = 1 / 2,
         item_src = ''https://unsplash.example/cup'',
         item_tags = ''cup,table,white cup on wooden table''\<rparr>
   \<and> item_score \<lparr>item_provider = ''pixabay'', item_score = 1 / 2,
         item_src = ''https://pixabay.example/cup.jpg'',
         item_tags = ''cup, porcelain, kitchenware''\<rparr>
     = item_score \<lparr>item_provider = ''unsplash'', item_score = 1 / 2,
         item_src = ''https://unsplash.example/cup'',
         item_tags = ''cup,table,white cup on wooden table''\<rparr>"
proof -
  let ?raw = "tokenize (normalize_text ''Red cup!'') ''en''"
  let ?h = "\<lparr>largeImageURL = Some ''https://pixabay.example/cup.jpg'', webformatURL = None,
        hit_tags = Some ''cup, porcelain, kitchenware'', hit_type = Some ''illustration''\<rparr>"
  let ?ph = "\<lparr>url_regular = Some ''https://unsplash.example/cup'', url_full = None, url_raw = None,
        tag_titles = [''cup'', ''table''], alt_description = Some ''white cup on wooden table'',
        description = None, likes = 0\<rparr>"
  let ?rp = "\<lparr>item_provider = ''pixabay'', item_score = 1 / 2,
         item_src = ''https://pixabay.example/cup.jpg'',
         item_tags = ''cup, porcelain, kitchenware''\<rparr>"
  let ?ru = "\<lparr>item_provider = ''unsplash'', item_score = 1 / 2,
         item_src = ''https://unsplash.example/cup'',
         item_tags = ''cup,table,white cup on wooden table''\<rparr>"
  have a1: "?h \<in> set [?h]" and a3: "?ph \<in> set [?ph]"
    by simp_all
  have a2: "pixabay_item remdups ?raw ?h = Some ?rp"
    by code_simp
  have a4: "unsplash_item remdups ?raw ?ph = Some ?ru"
    by code_simp
  have a5: "overlap_of (item_tags ?rp) ?raw = overlap_of (item_tags ?ru) ?raw"
    by code_simp
  have a6: "tri_of remdups (item_tags ?rp) ?raw < TRIGRAM_TAG_THRESHOLD"
    by code_simp
  have a7: "tri_of remdups (item_tags ?ru) ?raw < TRIGRAM_TAG_THRESHOLD"
    by code_simp
  have a8: "domain_keyword_boost (item_tags ?rp) = 1"
    by code_simp
  have a9: "domain_keyword_boost (item_tags ?ru) = 1"
    by code_simp
  have a10: "hit_type ?h \<noteq> Some ''photo''"
    by simp
  have a11: "likes ?ph = 0"
    by simp
  have "item_score ?rp = item_score ?ru"
    by (rule equal_overlap_equal_score [OF a1 a2 a3 a4 a5 a6 a7 a8 a9 a10 a11,
          THEN conjunct2, THEN conjunct2])
  with a2 a4 show ?thesis
    by (intro conjI)
qed

text \<open>
  C10. Every candidate the Pixabay ranker returns has a score that is not negative; so has
  every candidate the Unsplash ranker returns when no photo of the answer has a negative
  like count. A candidate of either provider whose tag text has no tokens scores 0.
\<close>

theorem ranked_scores_nonneg:
  assumes "case unsplash_answer of None \<Rightarrow> True
           | Some results \<Rightarrow> list_all (\<lambda>ph. 0 \<le> likes ph) results"
  shows "list_all (\<lambda>r. 0 \<le> item_score r) (pixabay_ranked iter pixabay_answer query)
       \<and> list_all (\<lambda>r. 0 \<le> item_score r) (unsplash_ranked iter unsplash_answer query)
       \<and> (pixabay_item iter raw h = Some rp \<and> tag_tokens_of (item_tags rp) = []
            \<longrightarrow> item_score rp = 0)
       \<and> (unsplash_item iter raw ph = Some ru \<and> tag_tokens_of (item_tags ru) = []
            \<longrightarrow> item_score ru = 0)"
proof -
  have 1: "list_all (\<lambda>r. 0 \<le> item_score r) (pixabay_ranked iter pixabay_answer query)"
  proof (cases pixabay_answer)
    case None
    then show ?thesis by (simp add: pixabay_ranked_def)
  next
    case (Some hits)
    show ?thesis
      unfolding Some list_all_iff set_pixabay_ranked
      by (auto intro: pixabay_item_nonneg)
  qed
  have 2: "list_all (\<lambda>r. 0 \<le> item_score r) (unsplash_ranked iter unsplash_answer query)"
  proof (cases unsplash_answer)
    case None
    then show ?thesis by (simp add: unsplash_ranked_def)
  next
    case (Some results)
    with assms have "list_all (\<lambda>ph. 0 \<le> likes ph) results"
      by simp
    then show ?thesis
      unfolding Some list_all_iff set_unsplash_ranked
      by (auto intro: unsplash_item_nonneg)
  qed
  have 3: "pixabay_item iter raw h = Some rp \<and> tag_tokens_of (item_tags rp) = []
            \<longrightarrow> item_score rp = 0"
    by (auto dest!: pixabay_item_score simp: score_hit_no_tokens)
  have 4: "unsplash_item iter raw ph = Some ru \<and> tag_tokens_of (item_tags ru) = []
            \<longrightarrow> item_score ru = 0"
    by (auto dest!: unsplash_item_score simp: score_hit_no_tokens)
  from 1 2 3 4 show ?thesis
    by (intro conjI)
qed

theorem ranked_scores_nonneg_witness:
  "list_all (\<lambda>ph. 0 \<le> likes ph)
      [\<lparr>url_regular = Some ''https://unsplash.example/cup'', url_full = None, url_raw = None,
        tag_titles = [''cup'', ''table''], alt_description = Some ''white cup on wooden table'',
        description = None, likes = 150\<rparr>]
   \<and> map item_score (unsplash_ranked remdups
        (Some [\<lparr>url_regular = Some ''https://unsplash.example/cup'', url_full = None, url_raw = None,
          tag_titles = [''cup'', ''table''], alt_description = Some ''white cup on wooden table'',
          description = None, likes = 150\<rparr>]) ''Red cup!'') = [13 / 20]
   \<and> list_all (\<lambda>r. 0 \<le> item_score r) (unsplash_ranked remdups
        (Some [\<lparr>url_regular = Some ''https://unsplash.example/cup'', url_full = None, url_raw = None,
          tag_titles = [''cup'', ''table''], alt_description = Some ''white cup on wooden table'',
          description = None, likes = 150\<rparr>]) ''Red cup!'')
   \<and> pixabay_item remdups [''red'', ''cup'']
        \<lparr>largeImageURL = None, webformatURL = Some ''https://pixabay.example/x.jpg'',
          hit_tags = Some ''!!! ...'', hit_type = Some ''photo''\<rparr>
      = Some \<lparr>item_provider = ''pixabay'', item_score = 0,
           item_src = ''https://pixabay.example/x.jpg'', item_tags = ''!!! ...''\<rparr>
   \<and> tag_tokens_of ''!!! ...'' = []"
proof -
  let ?ph = "\<lparr>url_regular = Some ''https://unsplash.example/cup'', url_full = None, url_raw = None,
        tag_titles = [''cup'', ''table''], alt_description = Some ''white cup on wooden table'',
        description = None, likes = 150\<rparr>"
  let ?h = "\<lparr>largeImageURL = None, webformatURL = Some ''https://pixabay.example/x.jpg'',
          hit_tags = Some ''!!! ...'', hit_type = Some ''photo''\<rparr>"
  have l: "list_all (\<lambda>ph. 0 \<le> likes ph) [?ph]"
    by simp
  then have hyp: "case Some [?ph] of None \<Rightarrow> True
           | Some results \<Rightarrow> list_all (\<lambda>ph. 0 \<le> likes ph) results"
    by simp
  have v: "map item_score (unsplash_ranked remdups (Some [?ph]) ''Red cup!'') = [13 / 20]"
    by code_simp
  have t: "tag_tokens_of ''!!! ...'' = []"
    by code_simp
  have p: "pixabay_item remdups [''red'', ''cup''] ?h
      = Some \<lparr>item_provider = ''pixabay'', item_score = 0,
           item_src = ''https://pixabay.example/x.jpg'', item_tags = ''!!! ...''\<rparr>"
    by code_simp
  have "list_all (\<lambda>r. 0 \<le> item_score r) (unsplash_ranked remdups (Some [?ph]) ''Red cup!'')"
    by (rule ranked_scores_nonneg [OF hyp, THEN conjunct2, THEN conjunct1])
  with l v p t show ?thesis
    by (intro conjI)
qed
section \<open>Properties of the query builder\<close>

lemma prefix_add_absent: "prefix pairs (add_absent pairs p)"
  by (simp add: add_absent_def)

lemma prefix_foldl_add_absent: "prefix pairs (foldl add_absent pairs ps)"
proof (induction ps arbitrary: pairs)
  case Nil
  then show ?case by simp
next
  case (Cons p ps)
  have "prefix pairs (add_absent pairs p)"
    by (rule prefix_add_absent)
  also have "prefix (add_absent pairs p) (foldl add_absent (add_absent pairs p) ps)"
    by (rule Cons.IH)
  finally show ?case by simp
qed

lemma length_add_absent: "length (add_absent pairs p) \<le> Suc (length pairs)"
  by (simp add: add_absent_def)

lemma length_foldl_add_absent: "length (foldl add_absent pairs ps) \<le> length pairs + length ps"
proof (induction ps arbitrary: pairs)
  case Nil
  then show ?case by simp
next
  case (Cons p ps)
  have "length (foldl add_absent (add_absent pairs p) ps) \<le> length (add_absent pairs p) + length ps"
    by (rule Cons.IH)
  with length_add_absent [of pairs p] show ?case by simp
qed

lemma add_absent_index:
  "\<exists>i\<le>length pairs. i < length (add_absent pairs p) \<and> add_absent pairs p ! i = p"
proof (cases "p \<in> set pairs")
  case True
  then obtain i where "i < length pairs" "pairs ! i = p"
    by (auto simp: in_set_conv_nth)
  with True show ?thesis
    by (intro exI [of _ i]) (simp add: add_absent_def)
next
  case False
  then show ?thesis
    by (intro exI [of _ "length pairs"]) (simp add: add_absent_def)
qed

lemma prefix_nth: "prefix xs ys \<Longrightarrow> i < length xs \<Longrightarrow> ys ! i = xs ! i"
  by (auto simp: prefix_def nth_append)

lemma prefix_length: "prefix xs ys \<Longrightarrow> length xs \<le> length ys"
  by (auto simp: prefix_def)

lemma filter_dropWhile_not:
  "filter (\<lambda>c. \<not> P c) (dropWhile P xs) = filter (\<lambda>c. \<not> P c) xs"
  by (induction xs) simp_all

lemma filter_strip: "filter (\<lambda>c. \<not> is_space c) (strip s) = filter (\<lambda>c. \<not> is_space c) s"
proof -
  have "filter (\<lambda>c. \<not> is_space c) (strip s)
        = rev (filter (\<lambda>c. \<not> is_space c) (dropWhile is_space (rev (dropWhile is_space s))))"
    by (simp add: strip_def rev_filter)
  also have "\<dots> = rev (filter (\<lambda>c. \<not> is_space c) (rev (dropWhile is_space s)))"
    by (simp only: filter_dropWhile_not)
  also have "\<dots> = filter (\<lambda>c. \<not> is_space c) (dropWhile is_space s)"
    by (simp add: rev_filter)
  also have "\<dots> = filter (\<lambda>c. \<not> is_space c) s"
    by (rule filter_dropWhile_not)
  finally show ?thesis .
qed

lemma strip_not_blank:
  assumes "filter (\<lambda>c. \<not> is_space c) s \<noteq> []"
  shows "strip s \<noteq> []"
proof
  assume "strip s = []"
  then have "filter (\<lambda>c. \<not> is_space c) (strip s) = []" by simp
  with filter_strip [of s] assms show False by simp
qed

lemma domain_anchor_cases:
  "domain_anchor d \<in> set (map snd anchor_table)"
proof (cases "map_of anchor_table d")
  case None
  then show ?thesis by (simp add: domain_anchor_def anchor_table_def)
next
  case (Some anchors)
  then have "(d, anchors) \<in> set anchor_table"
    by (rule map_of_SomeD)
  then have "anchors \<in> set (map snd anchor_table)"
    by force
  with Some show ?thesis by (simp add: domain_anchor_def)
qed

lemma anchor_table_solid:
  "list_all (\<lambda>anchors. anchors \<noteq> [] \<and> list_all (\<lambda>a. filter (\<lambda>c. \<not> is_space c) a \<noteq> []) anchors)
     (map snd anchor_table)"
  by (simp add: anchor_table_def is_space_def)

lemma domain_anchor_nonempty: "domain_anchor d \<noteq> []"
  using anchor_table_solid domain_anchor_cases [of d]
  by (auto simp: list_all_iff)

lemma domain_anchor_solid:
  "a \<in> set (domain_anchor d) \<Longrightarrow> filter (\<lambda>c. \<not> is_space c) a \<noteq> []"
  using anchor_table_solid domain_anchor_cases [of d]
  by (auto simp: list_all_iff)

lemma with_eng_like_not_blank:
  assumes "filter (\<lambda>c. \<not> is_space c) a \<noteq> []"
  shows "strip (with_eng_like eng_like a) \<noteq> []"
proof (cases "eng_like = []")
  case True
  with assms show ?thesis
    by (simp add: with_eng_like_def strip_not_blank)
next
  case False
  have "filter (\<lambda>c. \<not> is_space c) (strip (eng_like @ '' '' @ a)) \<noteq> []"
    using assms by (simp add: filter_strip)
  then have "strip (strip (eng_like @ '' '' @ a)) \<noteq> []"
    by (rule strip_not_blank)
  with False show ?thesis
    by (simp add: with_eng_like_def)
qed

lemma uniq_loop_shape:
  assumes "distinct (map plan_key uniq)" and "seen = plan_key ` set uniq"
    and "length uniq < 1 + MAX_FALLBACKS"
  shows "\<exists>added. uniq_loop ps seen uniq = uniq @ added \<and> subseq added ps
           \<and> distinct (map plan_key (uniq @ added))
           \<and> length (uniq @ added) \<le> 1 + MAX_FALLBACKS"
  using assms
proof (induction ps arbitrary: seen uniq)
  case Nil
  then show ?case by simp
next
  case (Cons p rest)
  define fresh where "fresh = (plan_key p \<notin> seen \<and> strip (fst p) \<noteq> [])"
  define uniq' where "uniq' = (if fresh then uniq @ [p] else uniq)"
  define seen' where "seen' = (if fresh then insert (plan_key p) seen else seen)"
  have step: "uniq_loop (p # rest) seen uniq =
      (if length uniq' \<ge> 1 + MAX_FALLBACKS then uniq' else uniq_loop rest seen' uniq')"
    by (simp add: Let_def fresh_def uniq'_def seen'_def)
  have d': "distinct (map plan_key uniq')"
    using Cons.prems(1,2) by (auto simp: uniq'_def fresh_def)
  have s': "seen' = plan_key ` set uniq'"
    using Cons.prems(2) by (auto simp: uniq'_def seen'_def)
  have l': "length uniq' \<le> 1 + MAX_FALLBACKS"
    using Cons.prems(3) by (simp add: uniq'_def)
  have sub: "subseq (if fresh then [p] else []) (p # rest)"
    by simp
  show ?case
  proof (cases "length uniq' \<ge> 1 + MAX_FALLBACKS")
    case True
    have "uniq' = uniq @ (if fresh then [p] else [])"
      by (simp add: uniq'_def)
    with True step d' l' sub show ?thesis
      by (intro exI [of _ "if fresh then [p] else []"]) simp
  next
    case False
    then have "length uniq' < 1 + MAX_FALLBACKS" by simp
    from Cons.IH [OF d' s' this] obtain added where
      a: "uniq_loop rest seen' uniq' = uniq' @ added" and b: "subseq added rest"
      and c: "distinct (map plan_key (uniq' @ added))"
      and d: "length (uniq' @ added) \<le> 1 + MAX_FALLBACKS"
      by (elim exE conjE)
    have e: "uniq' @ added = uniq @ ((if fresh then [p] else []) @ added)"
      by (simp add: uniq'_def)
    have f: "subseq ((if fresh then [p] else []) @ added) (p # rest)"
      using b by (cases fresh) (simp_all add: list_emb_Cons)
    from False step a c d e f show ?thesis
      by (intro exI [of _ "(if fresh then [p] else []) @ added"]) simp
  qed
qed

lemma uniq_loop_keeps_key:
  assumes "seen = plan_key ` set uniq" and "distinct (map plan_key uniq)"
    and "i < length ps" and "length uniq + i < 1 + MAX_FALLBACKS"
    and "strip (fst (ps ! i)) \<noteq> []"
  shows "\<exists>e\<in>set (uniq_loop ps seen uniq). plan_key e = plan_key (ps ! i)"
  using assms
proof (induction ps arbitrary: seen uniq i)
  case Nil
  then show ?case by simp
next
  case (Cons p rest)
  define fresh where "fresh = (plan_key p \<notin> seen \<and> strip (fst p) \<noteq> [])"
  define uniq' where "uniq' = (if fresh then uniq @ [p] else uniq)"
  define seen' where "seen' = (if fresh then insert (plan_key p) seen else seen)"
  have step: "uniq_loop (p # rest) seen uniq =
      (if length uniq' \<ge> 1 + MAX_FALLBACKS then uniq' else uniq_loop rest seen' uniq')"
    by (simp add: Let_def fresh_def uniq'_def seen'_def)
  have d': "distinct (map plan_key uniq')"
    using Cons.prems(1,2) by (auto simp: uniq'_def fresh_def)
  have s': "seen' = plan_key ` set uniq'"
    using Cons.prems(1) by (auto simp: uniq'_def seen'_def)
  have keep: "set uniq' \<subseteq> set (uniq_loop (p # rest) seen uniq)"
  proof (cases "length uniq' \<ge> 1 + MAX_FALLBACKS")
    case True
    with step show ?thesis by simp
  next
    case False
    then have "length uniq' < 1 + MAX_FALLBACKS" by simp
    from uniq_loop_shape [OF d' s' this, of rest] False step show ?thesis
      by auto
  qed
  show ?case
  proof (cases i)
    case 0
    have "\<exists>e\<in>set uniq'. plan_key e = plan_key p"
    proof (cases fresh)
      case True
      then show ?thesis by (simp add: uniq'_def)
    next
      case False
      with Cons.prems(5) 0 have "plan_key p \<in> seen"
        by (simp add: fresh_def)
      with Cons.prems(1) False show ?thesis
        by (auto simp: uniq'_def)
    qed
    with keep 0 show ?thesis by auto
  next
    case (Suc j)
    have lu: "length uniq' \<le> Suc (length uniq)"
      by (simp add: uniq'_def)
    with Cons.prems(4) Suc have small: "length uniq' + j < 1 + MAX_FALLBACKS"
      by simp
    then have go: "\<not> length uniq' \<ge> 1 + MAX_FALLBACKS"
      by simp
    have j: "j < length rest" and nb: "strip (fst (rest ! j)) \<noteq> []"
      using Cons.prems(3,5) Suc by simp_all
    from Cons.IH [OF s' d' j small nb] go step Suc show ?thesis
      by simp
  qed
qed

lemma first_anchor_index:
  fixes pairs3 :: "query_pair list"
  assumes "anchors \<noteq> []" and "length pairs3 \<le> 5" and "prefix (foldl add_absent pairs3 (map f anchors)) pairs"
  shows "\<exists>i. i \<le> 5 \<and> i < length pairs \<and> pairs ! i = f (hd anchors)"
proof -
  obtain a rest where an: "anchors = a # rest"
    using assms(1) by (cases anchors) auto
  from add_absent_index [of pairs3 "f a"] obtain i where
    i: "i \<le> length pairs3" "i < length (add_absent pairs3 (f a))" "add_absent pairs3 (f a) ! i = f a"
    by (elim exE conjE)
  have "prefix (add_absent pairs3 (f a)) (foldl add_absent (add_absent pairs3 (f a)) (map f rest))"
    by (rule prefix_foldl_add_absent)
  with assms(3) have p: "prefix (add_absent pairs3 (f a)) pairs"
    using prefix_order.trans by (simp add: an)
  from prefix_nth [OF p i(2)] prefix_length [OF p] i assms(2) an show ?thesis
    by (intro exI [of _ i]) simp
qed

lemma query_pairs_first_anchor:
  "\<exists>i. i \<le> 5 \<and> i < length (query_pairs iter LEXICON mined text lang)
     \<and> query_pairs iter LEXICON mined text lang ! i
        = (with_eng_like (eng_like_of (extras_tokens iter text lang))
             (hd (domain_anchor (extras_domain iter LEXICON text lang))),
           extras_primary_cat iter LEXICON text lang)"
proof -
  define primary_cat where "primary_cat = extras_primary_cat iter LEXICON text lang"
  define eng_like where "eng_like = eng_like_of (extras_tokens iter text lang)"
  define anchors where "anchors = domain_anchor (extras_domain iter LEXICON text lang)"
  define hints where "hints = scenario_hints_for mined (extras_domain iter LEXICON text lang)"
  define pairs2 where "pairs2 = foldl add_absent
      [(sentence_to_query iter LEXICON mined text (auto_lang text lang) MAX_QUERY_TOKENS, primary_cat)]
      (map (\<lambda>c. case map_of QUERY_TEMPLATES c of Some tc \<Rightarrow> tc | None \<Rightarrow> (c, primary_cat))
         (take 3 (extras_hits iter LEXICON text lang)))"
  define pairs3 where "pairs3 = (if eng_like \<noteq> [] then add_absent pairs2 (eng_like, primary_cat) else pairs2)"
  define pairs4 where "pairs4 = foldl add_absent pairs3 (map (\<lambda>a. (with_eng_like eng_like a, primary_cat)) anchors)"
  have q: "query_pairs iter LEXICON mined text lang =
      foldl add_absent
        (foldl add_absent pairs4 (map (\<lambda>h. (with_eng_like eng_like h, primary_cat)) (take 3 hints)))
        (map (\<lambda>q. (q, primary_cat)) (anchors @ hints))"
    by (simp only: query_pairs_def Let_def pairs4_def pairs3_def pairs2_def anchors_def hints_def
        eng_like_def primary_cat_def)
  have "length pairs2 \<le> 1 + 3"
    unfolding pairs2_def
    by (rule order_trans [OF length_foldl_add_absent]) simp
  then have l3: "length pairs3 \<le> 5"
    using length_add_absent [of pairs2 "(eng_like, primary_cat)"] by (simp add: pairs3_def)
  have "prefix pairs4
      (foldl add_absent pairs4 (map (\<lambda>h. (with_eng_like eng_like h, primary_cat)) (take 3 hints)))"
    by (rule prefix_foldl_add_absent)
  also have "prefix \<dots> (query_pairs iter LEXICON mined text lang)"
    unfolding q by (rule prefix_foldl_add_absent)
  finally have p: "prefix (foldl add_absent pairs3
        (map (\<lambda>a. (with_eng_like eng_like a, primary_cat)) anchors))
      (query_pairs iter LEXICON mined text lang)"
    by (simp add: pairs4_def)
  have ne: "anchors \<noteq> []"
    by (simp add: anchors_def domain_anchor_nonempty)
  from first_anchor_index [OF ne l3 p] show ?thesis
    by (simp add: eng_like_def anchors_def primary_cat_def)
qed

text \<open>
  C6. For every sentence and language, whatever the lexicon, the mined terms and the order
  in which sets are walked, the plan of the query builder is not empty, has at most 1 + 8
  pairs, has pairwise distinct keys (query stripped and in lower case, category) and keeps
  the order of the list it was taken from. It always has a pair whose key is that of an
  anchor phrase of the domain, prefixed by the ASCII tokens of the sentence when there are
  any.
\<close>

theorem query_plan_shape:
  fixes iter :: set_iter and LEXICON :: lexicon and mined :: scenario_terms
    and sentence :: string and lang :: string
  defines "plan \<equiv> fst (sentence_to_query_extras iter LEXICON mined sentence lang)"
  shows "plan \<noteq> []
       \<and> length plan \<le> 1 + 8
       \<and> distinct (map plan_key plan)
       \<and> subseq plan (query_pairs iter LEXICON mined sentence lang)
       \<and> (\<exists>e\<in>set plan. \<exists>a\<in>set (domain_anchor (extras_domain iter LEXICON sentence lang)).
            plan_key e = plan_key (with_eng_like (eng_like_of (extras_tokens iter sentence lang)) a,
                                   extras_primary_cat iter LEXICON sentence lang))"
proof -
  let ?pairs = "query_pairs iter LEXICON mined sentence lang"
  have pl: "plan = uniq_loop ?pairs {} []"
    by (simp add: plan_def sentence_to_query_extras_def)
  from uniq_loop_shape [of "[]" "{}" ?pairs] obtain added where
    "uniq_loop ?pairs {} [] = [] @ added" and "subseq added ?pairs"
    and "distinct (map plan_key ([] @ added))" and "length ([] @ added) \<le> 1 + MAX_FALLBACKS"
    by (auto simp: MAX_FALLBACKS_def)
  then have shape: "length plan \<le> 1 + 8" "distinct (map plan_key plan)" "subseq plan ?pairs"
    by (simp_all add: pl MAX_FALLBACKS_def)
  let ?a = "hd (domain_anchor (extras_domain iter LEXICON sentence lang))"
  let ?p = "(with_eng_like (eng_like_of (extras_tokens iter sentence lang)) ?a,
             extras_primary_cat iter LEXICON sentence lang)"
  have a: "?a \<in> set (domain_anchor (extras_domain iter LEXICON sentence lang))"
    by (simp add: domain_anchor_nonempty)
  from query_pairs_first_anchor [of iter LEXICON mined sentence lang] obtain i where
    i: "i \<le> 5" "i < length ?pairs" "?pairs ! i = ?p"
    by (elim exE conjE)
  have nb: "strip (fst (?pairs ! i)) \<noteq> []"
    using with_eng_like_not_blank [OF domain_anchor_solid [OF a]] by (simp add: i(3))
  have "\<exists>e\<in>set (uniq_loop ?pairs {} []). plan_key e = plan_key (?pairs ! i)"
    using i(1) by (intro uniq_loop_keeps_key [OF _ _ i(2) _ nb]) (simp_all add: MAX_FALLBACKS_def)
  then obtain e where e: "e \<in> set plan" "plan_key e = plan_key ?p"
    by (auto simp: pl i(3))
  then have anchor: "\<exists>e\<in>set plan. \<exists>a\<in>set (domain_anchor (extras_domain iter LEXICON sentence lang)).
            plan_key e = plan_key (with_eng_like (eng_like_of (extras_tokens iter sentence lang)) a,
                                   extras_primary_cat iter LEXICON sentence lang)"
    using a by blast
  from e(1) have ne: "plan \<noteq> []"
    by auto
  from ne shape anchor show ?thesis
    by (intro conjI)
qed

lemma tokenize_Nil: "tokenize [] lang = []"
  by (simp add: tokenize_def normalize_text_def lower_def strip_accents_def strip_def words_def)

lemma word_search_Nil: "p \<noteq> [] \<Longrightarrow> word_search p [] = None"
  by (simp add: word_search_def)

lemma exact_match_Nil: "\<not> exact_match iter [] code variants"
proof -
  have "\<not> (normalize_text v \<noteq> [] \<and> word_search (normalize_text v) [] \<noteq> None)" for v
    by (cases "normalize_text v = []") (simp_all add: word_search_Nil)
  then show ?thesis
    by (simp add: exact_match_def list_ex_iff Let_def)
qed

lemma concat_map_Nil: "concat (map (\<lambda>v. []) xs) = []"
  by (induction xs) simp_all

lemma best_sim_Nil: "best_sim [] code variants = 0"
  by (simp add: best_sim_def concat_map_Nil)

lemma detect_candidates_Nil:
  "detect_candidates iter LEXICON [] lang
     = sort_key (first_idx LEXICON [] (lang_code lang)) (iter [])"
  by (simp add: detect_candidates_def tokenize_Nil exact_match_Nil best_sim_Nil
      TRIGRAM_MATCH_THRESHOLD_def)

lemma clean_modifiers_Nil: "clean_modifiers remdups [] = []"
  by code_simp

lemma sentence_to_query_Nil:
  "sentence_to_query remdups LEXICON (\<lambda>domain. []) [] ''en'' MAX_QUERY_TOKENS = ''people indoors''"
proof -
  have 1: "auto_lang [] ''en'' = ''en''"
    by (simp add: auto_lang_def)
  have 2: "domain_guess_of [] = ''generic''"
    by code_simp
  have 3: "domain_anchor ''generic'' = [''people indoors'', ''object closeup'']"
    by code_simp
  have 4: "strip ''people indoors'' = ''people indoors''"
    by code_simp
  show ?thesis
    by (simp add: sentence_to_query_def 1 clean_modifiers_Nil tokenize_Nil detect_candidates_Nil
        2 3 4 scenario_hints_for_def Let_def)
qed

lemma query_pairs_Nil:
  "query_pairs remdups LEXICON (\<lambda>domain. []) [] ''en''
     = [(''people indoors'', None), (''object closeup'', None)]"
proof -
  have 1: "auto_lang [] ''en'' = ''en''"
    by (simp add: auto_lang_def)
  have t: "extras_tokens remdups [] ''en'' = []"
    by (simp add: extras_tokens_def clean_modifiers_Nil tokenize_Nil)
  have h: "extras_hits remdups LEXICON [] ''en'' = []"
    by (simp add: extras_hits_def t detect_candidates_Nil)
  have c: "extras_primary_cat remdups LEXICON [] ''en'' = None"
    by (simp add: extras_primary_cat_def h)
  have td: "token_domain [] = ''generic''"
    by (simp add: token_domain_def)
  have d: "extras_domain remdups LEXICON [] ''en'' = ''generic''"
    by (simp add: extras_domain_def h t td)
  have a: "domain_anchor ''generic'' = [''people indoors'', ''object closeup'']"
    by code_simp
  have e: "eng_like_of [] = []"
    by (simp add: eng_like_of_def)
  show ?thesis
    by (simp add: query_pairs_def Let_def 1 sentence_to_query_Nil t h c d a e
        scenario_hints_for_def add_absent_def with_eng_like_def)
qed

text \<open>
  The worst case: a sentence with no tokens, no mined terms. The plan is the two generic
  anchor phrases.
\<close>

theorem query_plan_shape_witness:
  "fst (sentence_to_query_extras remdups LEXICON_en (\<lambda>domain. []) [] ''en'')
     = [(''people indoors'', None), (''object closeup'', None)]
   \<and> fst (sentence_to_query_extras remdups LEXICON_en (\<lambda>domain. []) [] ''en'') \<noteq> []
   \<and> length (fst (sentence_to_query_extras remdups LEXICON_en (\<lambda>domain. []) [] ''en'')) \<le> 1 + 8"
proof -
  have k1: "plan_key (''people indoors'', None) = (''people indoors'', None)"
    by code_simp
  have k2: "plan_key (''object closeup'', None) = (''object closeup'', None)"
    by code_simp
  have s1: "strip ''people indoors'' \<noteq> []" and s2: "strip ''object closeup'' \<noteq> []"
    by code_simp+
  have "fst (sentence_to_query_extras remdups LEXICON_en (\<lambda>domain. []) [] ''en'')
     = [(''people indoors'', None), (''object closeup'', None)]"
    using s1 s2
    by (simp add: sentence_to_query_extras_def query_pairs_Nil Let_def k1 k2 MAX_FALLBACKS_def)
  moreover have "fst (sentence_to_query_extras remdups LEXICON_en (\<lambda>domain. []) [] ''en'') \<noteq> []"
    by (rule query_plan_shape [THEN conjunct1])
  moreover have "length (fst (sentence_to_query_extras remdups LEXICON_en (\<lambda>domain. []) [] ''en'')) \<le> 1 + 8"
    by (rule query_plan_shape [THEN conjunct2, THEN conjunct1])
  ultimately show ?thesis
    by (intro conjI)
qed
section \<open>The order of the hits of the lexicon matcher\<close>

lemma exact_match_any_order:
  assumes "set (iter (vlist_of code variants)) = set (vlist_of code variants)"
  shows "exact_match iter joined code variants
       = list_ex (\<lambda>v. normalize_text v \<noteq> [] \<and> word_search (normalize_text v) joined \<noteq> None)
           (vlist_of code variants)"
  using assms by (simp add: exact_match_def list_ex_iff Let_def)

lemma hotel_reception_tokens: "join '' '' (tokenize ''hotel reception'' ''en'') = ''hotel reception''"
  by code_simp

lemma hotel_reception_hits:
  "map fst (filter (\<lambda>e. list_ex (\<lambda>v. normalize_text v \<noteq> []
                                       \<and> word_search (normalize_text v) ''hotel reception'' \<noteq> None)
                            (vlist_of ''en'' (snd e))) LEXICON_en)
     = [''hotel exterior'', ''hotel reception'']"
  by code_simp

lemma hotel_reception_first_idx:
  "first_idx LEXICON_en ''hotel reception'' ''en'' ''hotel exterior'' = 0"
  "first_idx LEXICON_en ''hotel reception'' ''en'' ''hotel reception'' = 0"
  by code_simp+

lemma hotel_reception_detect:
  assumes "\<And>xs. set (iter xs) = set xs"
  shows "detect_candidates iter LEXICON_en ''hotel reception'' ''en''
       = sort_key (first_idx LEXICON_en ''hotel reception'' ''en'')
           (iter [''hotel exterior'', ''hotel reception''])"
proof -
  have c: "lang_code ''en'' = ''en''"
    by code_simp
  have em: "(\<lambda>e. exact_match iter ''hotel reception'' ''en'' (snd e))
       = (\<lambda>e. list_ex (\<lambda>v. normalize_text v \<noteq> []
                             \<and> word_search (normalize_text v) ''hotel reception'' \<noteq> None)
                  (vlist_of ''en'' (snd e)))"
    by (rule ext) (rule exact_match_any_order, rule assms)
  have h: "map fst (filter (\<lambda>e. exact_match iter ''hotel reception'' ''en'' (snd e)) LEXICON_en)
       = [''hotel exterior'', ''hotel reception'']"
    unfolding em by (rule hotel_reception_hits)
  show ?thesis
    unfolding detect_candidates_def Let_def hotel_reception_tokens c h by simp
qed

text \<open>
  C5 on the sentence \<open>hotel reception\<close>, language \<open>en\<close>. Two concepts match at offset 0,
  \<open>hotel exterior\<close> (declared first) and \<open>hotel reception\<close>. The matcher sorts
  \<open>set(hits)\<close>, so the order of the two follows the order in which the set is walked: one
  walk gives the order of declaration, another one the reverse.
\<close>

theorem detect_candidates_tie_follows_set_order:
  "first_idx LEXICON_en ''hotel reception'' ''en'' ''hotel exterior''
     = first_idx LEXICON_en ''hotel reception'' ''en'' ''hotel reception''
   \<and> detect_candidates walk_in_order LEXICON_en ''hotel reception'' ''en''
       = [''hotel exterior'', ''hotel reception'']
   \<and> detect_candidates walk_reversed LEXICON_en ''hotel reception'' ''en''
       = [''hotel reception'', ''hotel exterior'']"
proof -
  have 1: "detect_candidates walk_in_order LEXICON_en ''hotel reception'' ''en''
       = [''hotel exterior'', ''hotel reception'']"
    by (subst hotel_reception_detect) (simp_all add: walk_in_order_def hotel_reception_first_idx)
  have 2: "detect_candidates walk_reversed LEXICON_en ''hotel reception'' ''en''
       = [''hotel reception'', ''hotel exterior'']"
    by (subst hotel_reception_detect) (simp_all add: walk_reversed_def hotel_reception_first_idx)
  from 1 2 show ?thesis
    by (simp add: hotel_reception_first_idx)
qed

end
